theory Spec2Isabelle
  imports Main
begin

section \<open>The quincy middleware chain\<close>

text \<open>
  A shallow embedding of \<^verbatim>\<open>quincy.go\<close>. Go function values are modelled as
  optional HOL functions (\<open>None\<close> is the nil function), the request-scoped effects of a
  middleware or of a terminal handler as explicit passing of a state \<open>'s\<close>, and a panic
  as the left summand of the result, together with the state reached when it happened.
  The response writer \<open>'w\<close> and the request \<open>'r\<close> are opaque: the package only hands
  them on. The slices of middleware and the chain objects live in a heap that the
  operations of the package read and update explicitly, so that slices sharing a backing
  array and chains changed after a handler was taken are part of the model.
\<close>

subsection \<open>Contexts and results\<close>

text \<open>
  \<^verbatim>\<open>context.Context\<close> is an interface. A concrete context carries its values and
  the result of its \<^verbatim>\<open>Err()\<close> method (\<open>None\<close> is the nil error); the interface
  value itself may be nil, which is \<open>None\<close> of \<open>Context\<close>.
\<close>

datatype ctx = Ctx (vals: "(string \<times> int) list") (err: "string option")

type_synonym Context = "ctx option"

datatype fault = NilDereference | Panic string

text \<open>Calling \<^verbatim>\<open>c.Err()\<close> on a nil interface value is a nil dereference.\<close>

fun Err :: "Context \<Rightarrow> fault + string option" where
  "Err None = Inl NilDereference"
| "Err (Some c) = Inr (err c)"

type_synonym ('w, 'r, 's) mwfun =
  "Context \<Rightarrow> 'w \<Rightarrow> 'r \<Rightarrow> 's \<Rightarrow> (fault \<times> 's) + (Context \<times> 's)"

type_synonym ('w, 'r, 's) Middleware = "('w, 'r, 's) mwfun option"

type_synonym ('w, 'r, 's) hfun =
  "Context \<Rightarrow> 'w \<Rightarrow> 'r \<Rightarrow> 's \<Rightarrow> (fault \<times> 's) + 's"

type_synonym ('w, 'r, 's) HandlerFunc = "('w, 'r, 's) hfun option"

text \<open>
  An object implementing the \<^verbatim>\<open>Handler\<close> interface is given by its
  \<^verbatim>\<open>ServeHTTP\<close> method; an interface value is again optional.
\<close>

datatype ('w, 'r, 's) Handler = Handler (ServeHTTP: "('w, 'r, 's) hfun")

text \<open>Calls of function values and of the interface method: nil panics.\<close>

fun call_mw :: "('w, 'r, 's) Middleware \<Rightarrow> ('w, 'r, 's) mwfun" where
  "call_mw None c w r s = Inl (NilDereference, s)"
| "call_mw (Some f) c w r s = f c w r s"

fun call_fn :: "('w, 'r, 's) HandlerFunc \<Rightarrow> ('w, 'r, 's) hfun" where
  "call_fn None c w r s = Inl (NilDereference, s)"
| "call_fn (Some f) c w r s = f c w r s"

fun call_ServeHTTP :: "('w, 'r, 's) Handler option \<Rightarrow> ('w, 'r, 's) hfun" where
  "call_ServeHTTP None c w r s = Inl (NilDereference, s)"
| "call_ServeHTTP (Some h) c w r s = ServeHTTP h c w r s"

subsection \<open>link and chain\<close>

text \<open>
  \<^verbatim>\<open>link(current, next)\<close> returns a closure over both arguments: it calls
  \<^verbatim>\<open>current\<close>, returns its Context at once when \<^verbatim>\<open>c.Err() != nil\<close>, and
  otherwise calls \<^verbatim>\<open>next\<close> when that is not nil.
\<close>

definition link ::
  "('w, 'r, 's) Middleware \<Rightarrow> ('w, 'r, 's) Middleware \<Rightarrow> ('w, 'r, 's) Middleware" where
  "link current next = Some (\<lambda>c w r s.
     case call_mw current c w r s of
       Inl p \<Rightarrow> Inl p
     | Inr (c1, s1) \<Rightarrow>
         (case Err c1 of
            Inl e \<Rightarrow> Inl (e, s1)
          | Inr e \<Rightarrow>
              if e \<noteq> None then Inr (c1, s1)
              else if next \<noteq> None then call_mw next c1 w r s1
              else Inr (c1, s1)))"

text \<open>
  The loop of \<^verbatim>\<open>chain\<close>,
  \<^verbatim>\<open>for i := count - 1; i >= 0; i-- { next = link(fns[i], next) }\<close>,
  with the Go \<^verbatim>\<open>int\<close> index \<open>i\<close>. It is entered at \<open>count - 1\<close>, so every index it
  reads lies in \<open>0 .. count - 1\<close>.
\<close>

function chain_loop ::
  "('w, 'r, 's) Middleware list \<Rightarrow> int \<Rightarrow> ('w, 'r, 's) Middleware \<Rightarrow> ('w, 'r, 's) Middleware"
  where
  "chain_loop fns i next =
     (if i \<ge> 0 then chain_loop fns (i - 1) (link (fns ! nat i) next) else next)"
  by pat_completeness auto
termination
  by (relation "measure (\<lambda>(fns, i, next). nat (i + 1))") auto

declare chain_loop.simps [simp del]

definition chain :: "('w, 'r, 's) Middleware list \<Rightarrow> ('w, 'r, 's) Middleware" where
  "chain fns =
     (let count = int (length fns);
          next = chain_loop fns (count - 1) None
      in if count = 0 then Some (\<lambda>c w r s. Inr (c, s)) else next)"

subsection \<open>Slices and the heap\<close>

text \<open>
  A Go slice is a header: a backing array, the offset of the first element in it, a
  length and a capacity. The heap holds the backing arrays of middleware and the objects
  of type \<^verbatim>\<open>Q\<close>; an array is named by its index in \<open>arrays\<close>, an object by its index
  in \<open>objs\<close>. A pointer \<^verbatim>\<open>*Q\<close> is an optional index, \<open>None\<close> being nil.
\<close>

record slice =
  arr :: nat
  off :: nat
  len :: nat
  cap :: nat

record Q =
  fns :: slice

record ('w, 'r, 's) heap =
  arrays :: "('w, 'r, 's) Middleware list list"
  objs :: "Q list"

type_synonym ptr = "nat option"

text \<open>Following a pointer; nil (or an address never allocated) gives nothing.\<close>

definition deref :: "('w, 'r, 's) heap \<Rightarrow> ptr \<Rightarrow> Q option" where
  "deref H q =
     (case q of
        None \<Rightarrow> None
      | Some p \<Rightarrow> if p < length (objs H) then Some (objs H ! p) else None)"

text \<open>The elements \<open>t[0], \<dots>, t[len(t) - 1]\<close> of a slice, read from its backing array.\<close>

definition elems :: "('w, 'r, 's) heap \<Rightarrow> slice \<Rightarrow> ('w, 'r, 's) Middleware list" where
  "elems H t = (if len t = 0 then [] else take (len t) (drop (off t) (arrays H ! arr t)))"

text \<open>
  The built-in \<^verbatim>\<open>append(s, t...)\<close>. When the capacity of \<open>s\<close> suffices, the
  elements of \<open>t\<close> are written into the backing array of \<open>s\<close> behind its last element
  and the result is \<open>s\<close> with the new length: every slice sharing that array sees the
  write. Otherwise a new array is allocated that holds the elements of \<open>s\<close> and of \<open>t\<close>,
  the rest of it zeroed. How much larger than needed the new array is depends on the
  Go runtime and is the parameter \<open>grow\<close>, from the old capacity and the length needed.
\<close>

definition append_slice ::
  "(nat \<Rightarrow> nat \<Rightarrow> nat) \<Rightarrow> ('w, 'r, 's) heap \<Rightarrow> slice \<Rightarrow> slice \<Rightarrow> slice \<times> ('w, 'r, 's) heap" where
  "append_slice grow H s t =
     (let xs = elems H t; n = len s + len t in
      if n \<le> cap s then
        (let a = arrays H ! arr s;
             a' = take (off s + len s) a @ xs @ drop (off s + n) a
         in (s\<lparr>len := n\<rparr>, H\<lparr>arrays := (arrays H)[arr s := a']\<rparr>))
      else
        (let c = max n (grow (cap s) n)
         in (\<lparr>arr = length (arrays H), off = 0, len = n, cap = c\<rparr>,
             H\<lparr>arrays := arrays H @ [elems H s @ xs @ replicate (c - n) None]\<rparr>)))"

text \<open>
  A call with the arguments written out, as in \<^verbatim>\<open>New(foo, bar)\<close>, passes a new
  slice over a new array that holds exactly the arguments, and the nil slice when there
  is no argument. A call \<^verbatim>\<open>New(s...)\<close> passes the slice \<open>s\<close> itself.
\<close>

definition variadic ::
  "('w, 'r, 's) heap \<Rightarrow> ('w, 'r, 's) Middleware list \<Rightarrow> slice \<times> ('w, 'r, 's) heap" where
  "variadic H xs =
     (if xs = [] then (\<lparr>arr = 0, off = 0, len = 0, cap = 0\<rparr>, H)
      else (\<lparr>arr = length (arrays H), off = 0, len = length xs, cap = length xs\<rparr>,
            H\<lparr>arrays := arrays H @ [xs]\<rparr>))"

subsection \<open>The chain object\<close>

text \<open>
  \<^verbatim>\<open>New\<close> allocates a \<^verbatim>\<open>Q\<close> whose field \<^verbatim>\<open>fns\<close> is the slice it was
  given, not a copy of its elements, and returns the pointer.
\<close>

definition New :: "('w, 'r, 's) heap \<Rightarrow> slice \<Rightarrow> ptr \<times> ('w, 'r, 's) heap" where
  "New H fs = (let q = \<lparr>fns = fs\<rparr> in (Some (length (objs H)), H\<lparr>objs := objs H @ [q]\<rparr>))"

text \<open>
  \<^verbatim>\<open>Add\<close> has a pointer receiver: it reads \<^verbatim>\<open>q.fns\<close>, appends and stores the
  resulting slice in the object.
\<close>

definition Add ::
  "(nat \<Rightarrow> nat \<Rightarrow> nat) \<Rightarrow> ('w, 'r, 's) heap \<Rightarrow> ptr \<Rightarrow> slice \<Rightarrow> fault + ('w, 'r, 's) heap" where
  "Add grow H q fs =
     (case q of
        None \<Rightarrow> Inl NilDereference
      | Some p \<Rightarrow>
          if p < length (objs H) then
            (let (t, H1) = append_slice grow H (fns (objs H ! p)) fs
             in Inr (H1\<lparr>objs := (objs H1)[p := (objs H1 ! p)\<lparr>fns := t\<rparr>]\<rparr>))
          else Inl NilDereference)"

text \<open>
  \<^verbatim>\<open>Run\<close> composes the chain from the elements that \<^verbatim>\<open>q.fns\<close> has when it is
  called, calls the composed chain and drops the Context it returns.
\<close>

definition Run ::
  "('w, 'r, 's) heap \<Rightarrow> ptr \<Rightarrow> Context \<Rightarrow> 'w \<Rightarrow> 'r \<Rightarrow> 's \<Rightarrow> (fault \<times> 's) + 's" where
  "Run H q c w r s =
     (case deref H q of
        None \<Rightarrow> Inl (NilDereference, s)
      | Some Qv \<Rightarrow>
          (case call_mw (chain (elems H (fns Qv))) c w r s of
             Inl p \<Rightarrow> Inl p
           | Inr (c1, s1) \<Rightarrow> Inr s1))"

text \<open>
  \<^verbatim>\<open>appengine.NewContext\<close> belongs to the host platform; it is a parameter
  \<open>NewContext\<close> of the two handlers below. \<^verbatim>\<open>Then\<close> composes the chain first,
  from the elements that \<^verbatim>\<open>q.fns\<close> has in the heap \<open>H\<close> of the call, and returns a
  closure over the composed function \<^verbatim>\<open>chn\<close> and \<^verbatim>\<open>fn\<close>. The closure is
  called later, in the heap of that moment, which is its first argument; its body does
  not read it.
\<close>

definition Then ::
  "('r \<Rightarrow> Context) \<Rightarrow> ('w, 'r, 's) heap \<Rightarrow> ptr \<Rightarrow> ('w, 'r, 's) HandlerFunc \<Rightarrow>
     fault + (('w, 'r, 's) heap \<Rightarrow> 'w \<Rightarrow> 'r \<Rightarrow> 's \<Rightarrow> (fault \<times> 's) + 's)" where
  "Then NewContext H q fn =
     (case deref H q of
        None \<Rightarrow> Inl NilDereference
      | Some Qv \<Rightarrow>
          (let chn = chain (elems H (fns Qv)) in
           Inr (\<lambda>H' w r s.
             let c = NewContext r in
             case call_mw chn c w r s of
               Inl p \<Rightarrow> Inl p
             | Inr (c1, s1) \<Rightarrow>
                 (case Err c1 of
                    Inl e \<Rightarrow> Inl (e, s1)
                  | Inr e \<Rightarrow> if e = None then call_fn fn c1 w r s1 else Inr s1))))"

text \<open>
  The struct \<^verbatim>\<open>handler\<close> and its \<^verbatim>\<open>ServeHTTP\<close> method, which has a value
  receiver and is likewise called in the heap of the moment.
\<close>

record ('w, 'r, 's) handler =
  mw :: "('w, 'r, 's) Middleware"
  handler :: "('w, 'r, 's) Handler option"

definition handler_ServeHTTP ::
  "('r \<Rightarrow> Context) \<Rightarrow> ('w, 'r, 's) handler \<Rightarrow> ('w, 'r, 's) heap \<Rightarrow> 'w \<Rightarrow> 'r \<Rightarrow> 's \<Rightarrow>
     (fault \<times> 's) + 's" where
  "handler_ServeHTTP NewContext h H' w r s =
     (let c = NewContext r in
      case call_mw (mw h) c w r s of
        Inl p \<Rightarrow> Inl p
      | Inr (c1, s1) \<Rightarrow>
          (case Err c1 of
             Inl e \<Rightarrow> Inl (e, s1)
           | Inr e \<Rightarrow> if e = None then call_ServeHTTP (handler h) c1 w r s1 else Inr s1))"

definition Handle ::
  "('w, 'r, 's) heap \<Rightarrow> ptr \<Rightarrow> ('w, 'r, 's) Handler option \<Rightarrow> fault + ('w, 'r, 's) handler" where
  "Handle H q h =
     (case deref H q of
        None \<Rightarrow> Inl NilDereference
      | Some Qv \<Rightarrow> (let mw = chain (elems H (fns Qv)) in Inr \<lparr>mw = mw, handler = h\<rparr>))"

text \<open>
  The caller of \<^verbatim>\<open>Then\<close> or \<^verbatim>\<open>Handle\<close> keeps the result and calls it for each
  request, in a later heap \<open>H'\<close>: \<open>invoke\<close> and \<open>serve\<close> are these calls. A panic of
  \<^verbatim>\<open>Then\<close> or \<^verbatim>\<open>Handle\<close> itself (a nil receiver) leaves no handler to call and
  is the outcome.
\<close>

fun invoke ::
  "fault + (('w, 'r, 's) heap \<Rightarrow> 'w \<Rightarrow> 'r \<Rightarrow> 's \<Rightarrow> (fault \<times> 's) + 's) \<Rightarrow>
     ('w, 'r, 's) heap \<Rightarrow> 'w \<Rightarrow> 'r \<Rightarrow> 's \<Rightarrow> (fault \<times> 's) + 's" where
  "invoke (Inl e) H' w r s = Inl (e, s)"
| "invoke (Inr h) H' w r s = h H' w r s"

fun serve ::
  "('r \<Rightarrow> Context) \<Rightarrow> fault + ('w, 'r, 's) handler \<Rightarrow>
     ('w, 'r, 's) heap \<Rightarrow> 'w \<Rightarrow> 'r \<Rightarrow> 's \<Rightarrow> (fault \<times> 's) + 's" where
  "serve NewContext (Inl e) H' w r s = Inl (e, s)"
| "serve NewContext (Inr h) H' w r s = handler_ServeHTTP NewContext h H' w r s"

text \<open>
  The middleware and the terminal units are the caller's functions. They are taken to
  work on the request state \<open>'s\<close> and not on the slices and chains of the heap, which
  only the operations of the package change.
\<close>

subsection \<open>Reading a chain\<close>

text \<open>
  \<open>steps H q\<close> are the elements of \<^verbatim>\<open>q.fns\<close> in the heap \<open>H\<close>, when \<open>q\<close> points to
  a chain. A slice is well formed in a heap when its length is within its capacity and
  its capacity within its backing array; Go creates no other slices.
\<close>

definition steps :: "('w, 'r, 's) heap \<Rightarrow> ptr \<Rightarrow> ('w, 'r, 's) Middleware list option" where
  "steps H q = (case deref H q of None \<Rightarrow> None | Some Qv \<Rightarrow> Some (elems H (fns Qv)))"

definition wf_slice :: "('w, 'r, 's) heap \<Rightarrow> slice \<Rightarrow> bool" where
  "wf_slice H t =
     (len t \<le> cap t \<and>
      (cap t = 0 \<or> (arr t < length (arrays H) \<and> off t + cap t \<le> length (arrays H ! arr t))))"

definition wf_chain :: "('w, 'r, 's) heap \<Rightarrow> ptr \<Rightarrow> bool" where
  "wf_chain H q = (case deref H q of None \<Rightarrow> False | Some Qv \<Rightarrow> wf_slice H (fns Qv))"

subsection \<open>Observing invocations\<close>

text \<open>
  To say which middleware a run invokes, a middleware is wrapped so that each call of it
  is recorded: \<open>probe_mw i m\<close> behaves as \<open>m\<close> on the state proper and appends \<open>Step i\<close>
  to a trace kept beside it, as a test would count the calls. \<open>probes i ms\<close> wraps the
  steps of \<open>ms\<close> with their positions, counted from \<open>i\<close>; \<open>probe_fn\<close> wraps a terminal
  unit and records \<open>Terminal\<close>.
\<close>

datatype event = Step nat | Terminal

fun probe_mw :: "nat \<Rightarrow> ('w, 'r, 's) mwfun \<Rightarrow> ('w, 'r, event list \<times> 's) mwfun" where
  "probe_mw i m c w r (tr, s) =
     (case m c w r s of
        Inl (e, s1) \<Rightarrow> Inl (e, (tr @ [Step i], s1))
      | Inr (c1, s1) \<Rightarrow> Inr (c1, (tr @ [Step i], s1)))"

fun probes :: "nat \<Rightarrow> ('w, 'r, 's) mwfun list \<Rightarrow> ('w, 'r, event list \<times> 's) Middleware list" where
  "probes i [] = []"
| "probes i (m # ms) = Some (probe_mw i m) # probes (Suc i) ms"

fun probe_fn :: "('w, 'r, 's) hfun \<Rightarrow> ('w, 'r, event list \<times> 's) hfun" where
  "probe_fn f c w r (tr, s) =
     (case f c w r s of
        Inl (e, s1) \<Rightarrow> Inl (e, (tr @ [Terminal], s1))
      | Inr s1 \<Rightarrow> Inr (tr @ [Terminal], s1))"

text \<open>The trace of a result, whether the run returned or panicked.\<close>

fun mw_trace :: "(fault \<times> event list \<times> 's) + (Context \<times> event list \<times> 's) \<Rightarrow> event list" where
  "mw_trace (Inl (e, tr, s)) = tr"
| "mw_trace (Inr (c, tr, s)) = tr"

fun h_trace :: "(fault \<times> event list \<times> 's) + (event list \<times> 's) \<Rightarrow> event list" where
  "h_trace (Inl (e, tr, s)) = tr"
| "h_trace (Inr (tr, s)) = tr"

text \<open>
  \<open>all_pass ms c w r s\<close> runs the steps \<open>ms\<close> in order from the Context \<open>c\<close> and the state
  \<open>s\<close>, and is \<open>Some (c', s')\<close> exactly when none of them signals failure: each returns
  a Context (not nil) whose error is nil. Then \<open>c'\<close> is the Context produced by the last
  step (\<open>c\<close> itself when there is no step) and \<open>s'\<close> is the state it leaves.
\<close>

fun all_pass ::
  "('w, 'r, 's) mwfun list \<Rightarrow> Context \<Rightarrow> 'w \<Rightarrow> 'r \<Rightarrow> 's \<Rightarrow> (Context \<times> 's) option" where
  "all_pass [] c w r s = Some (c, s)"
| "all_pass (m # ms) c w r s =
     (case m c w r s of
        Inl p \<Rightarrow> None
      | Inr (c1, s1) \<Rightarrow>
          (case c1 of
             None \<Rightarrow> None
           | Some x \<Rightarrow> if err x = None then all_pass ms c1 w r s1 else None))"

text \<open>
  \<open>steps_return ms c w r s\<close> says of the run of the steps \<open>ms\<close> from \<open>c\<close> and \<open>s\<close> that
  every step it reaches returns a Context that is not nil. The run reaches the first
  step, and the step after one that returned a Context without failure.
\<close>

fun steps_return :: "('w, 'r, 's) mwfun list \<Rightarrow> Context \<Rightarrow> 'w \<Rightarrow> 'r \<Rightarrow> 's \<Rightarrow> bool" where
  "steps_return [] c w r s = True"
| "steps_return (m # ms) c w r s =
     (case m c w r s of
        Inl p \<Rightarrow> False
      | Inr (c1, s1) \<Rightarrow>
          (case c1 of
             None \<Rightarrow> False
           | Some x \<Rightarrow> if err x = None then steps_return ms c1 w r s1 else True))"

text \<open>
  The closure returned by \<^verbatim>\<open>Then\<close> has the type
  \<^verbatim>\<open>func(http.ResponseWriter, *http.Request)\<close>: it takes no Context. Used as the
  terminal unit of another chain it has to be wrapped into a \<^verbatim>\<open>HandlerFunc\<close>,
  which can only drop the Context it is given.
\<close>

definition drop_context :: "('w \<Rightarrow> 'r \<Rightarrow> 's \<Rightarrow> (fault \<times> 's) + 's) \<Rightarrow> ('w, 'r, 's) hfun" where
  "drop_context h = (\<lambda>c w r s. h w r s)"

subsection \<open>The composition, step by step\<close>

lemma chain_loop_foldr:
  "- 1 \<le> i \<Longrightarrow> i < int (length fs) \<Longrightarrow>
     chain_loop fs i next = foldr link (take (nat (i + 1)) fs) next"
proof (induction fs i "next" rule: chain_loop.induct)
  case (1 fs i nxt)
  show ?case
  proof (cases "i \<ge> 0")
    case True
    then have n: "nat i < length fs" and e: "nat (i + 1) = Suc (nat i)"
      using "1.prems" by auto
    have "chain_loop fs i nxt = chain_loop fs (i - 1) (link (fs ! nat i) nxt)"
      using True by (simp add: chain_loop.simps [of fs i])
    also have "\<dots> = foldr link (take (nat (i - 1 + 1)) fs) (link (fs ! nat i) nxt)"
      using True "1.prems" by (intro "1.IH") auto
    also have "\<dots> = foldr link (take (nat i) fs @ [fs ! nat i]) nxt"
      by simp
    also have "\<dots> = foldr link (take (nat (i + 1)) fs) nxt"
      using n e by (simp add: take_Suc_conv_app_nth)
    finally show ?thesis .
  next
    case False
    then have "i = - 1" using "1.prems" by simp
    then show ?thesis by (simp add: chain_loop.simps [of fs "- 1"])
  qed
qed

lemma chain_Nil: "call_mw (chain []) c w r s = Inr (c, s)"
  by (simp add: chain_def)

lemma chain_foldr: "fs \<noteq> [] \<Longrightarrow> chain fs = foldr link fs None"
  by (simp add: chain_def Let_def chain_loop_foldr)

lemma chain_Cons:
  "call_mw (chain (f # fs)) c w r s =
     (case call_mw f c w r s of
        Inl p \<Rightarrow> Inl p
      | Inr (c1, s1) \<Rightarrow>
          (case Err c1 of
             Inl e \<Rightarrow> Inl (e, s1)
           | Inr e \<Rightarrow> if e \<noteq> None then Inr (c1, s1) else call_mw (chain fs) c1 w r s1))"
proof (cases fs)
  case Nil
  then show ?thesis
    by (simp add: chain_foldr link_def chain_Nil split: sum.splits prod.splits)
next
  case (Cons g gs)
  then have nz: "chain fs \<noteq> None"
    by (simp add: chain_foldr link_def)
  have "chain (f # fs) = link f (chain fs)"
    using Cons by (simp add: chain_foldr)
  then show ?thesis
    using nz by (simp add: link_def split: sum.splits prod.splits)
qed

lemma chain_pass:
  "all_pass pre c w r s = Some (c1, s1) \<Longrightarrow>
     call_mw (chain (map Some pre @ fs)) c w r s = call_mw (chain fs) c1 w r s1"
proof (induction pre arbitrary: c s)
  case Nil
  then show ?case by simp
next
  case (Cons m pre)
  then show ?case
    by (auto simp: chain_Cons split: sum.splits option.splits if_splits)
qed

lemma probes_append: "probes i (xs @ ys) = probes i xs @ probes (i + length xs) ys"
  by (induction xs arbitrary: i) simp_all

lemma upt_step: "[i..<Suc (i + n)] = i # [Suc i..<Suc (i + n)]"
  by (subst upt_rec) simp

lemma chain_probes_pass:
  "all_pass pre c w r s = Some (c1, s1) \<Longrightarrow>
     call_mw (chain (probes i pre @ fs)) c w r (tr, s) =
       call_mw (chain fs) c1 w r (tr @ map Step [i..<i + length pre], s1)"
proof (induction pre arbitrary: c s i tr)
  case Nil
  then show ?case by simp
next
  case (Cons m pre)
  from Cons.prems obtain x s0 where m: "m c w r s = Inr (Some x, s0)" and x: "err x = None"
    and rest: "all_pass pre (Some x) w r s0 = Some (c1, s1)"
    by (auto split: sum.splits option.splits if_splits)
  have "call_mw (chain (probes i (m # pre) @ fs)) c w r (tr, s)
      = call_mw (chain (probes (Suc i) pre @ fs)) (Some x) w r (tr @ [Step i], s0)"
    using m x by (simp add: chain_Cons)
  also have "\<dots> = call_mw (chain fs) c1 w r
      ((tr @ [Step i]) @ map Step [Suc i..<Suc i + length pre], s1)"
    using rest by (rule Cons.IH)
  finally show ?case
    by (simp add: upt_step del: upt_Suc)
qed

lemma chain_stop:
  "call_mw f c w r s = Inr (Some ck, sk) \<Longrightarrow> err ck \<noteq> None \<Longrightarrow>
     call_mw (chain (f # fs)) c w r s = Inr (Some ck, sk)"
  by (simp add: chain_Cons)

lemma chain_pass_stop:
  assumes "all_pass pre c w r s = Some (c1, s1)"
    and "m c1 w r s1 = Inr (Some ck, sk)" and "err ck \<noteq> None"
  shows "call_mw (chain (map Some (pre @ m # post))) c w r s = Inr (Some ck, sk)"
proof -
  have "call_mw (chain (map Some pre @ Some m # map Some post)) c w r s
      = call_mw (chain (Some m # map Some post)) c1 w r s1"
    using assms(1) by (rule chain_pass)
  also have "\<dots> = Inr (Some ck, sk)"
    using assms(2,3) by (simp add: chain_stop)
  finally show ?thesis by simp
qed

lemma chain_probes_stop:
  assumes "all_pass pre c w r s = Some (c1, s1)"
    and "m c1 w r s1 = Inr (Some ck, sk)" and "err ck \<noteq> None"
  shows "call_mw (chain (probes 0 (pre @ m # post))) c w r ([], s)
    = Inr (Some ck, (map Step [0..<Suc (length pre)], sk))"
proof -
  have "call_mw (chain (probes 0 pre @ probes (length pre) (m # post))) c w r ([], s)
      = call_mw (chain (probes (length pre) (m # post))) c1 w r
          ([] @ map Step [0..<0 + length pre], s1)"
    using assms(1) by (rule chain_probes_pass)
  also have "\<dots> = Inr (Some ck, (map Step [0..<Suc (length pre)], sk))"
    using assms(2,3) by (simp add: chain_stop)
  finally show ?thesis by (simp add: probes_append)
qed

lemma split_at:
  assumes "k < length ms"
  obtains pre post where "ms = pre @ ms ! k # post" and "length pre = k" and "pre = take k ms"
proof
  show "ms = take k ms @ ms ! k # drop (Suc k) ms"
    using assms by (simp add: id_take_nth_drop)
  show "length (take k ms) = k"
    using assms by simp
qed simp

subsection \<open>Slices, append and the chain operations\<close>

lemma elems_length: "wf_slice H t \<Longrightarrow> length (elems H t) = len t"
  by (auto simp: wf_slice_def elems_def)

lemma write_behind:
  assumes "o' + k + length xs \<le> length a"
  shows "take (k + length xs) (drop o' (take (o' + k) a @ xs @ drop (o' + (k + length xs)) a))
    = take k (drop o' a) @ xs"
proof -
  have l: "length (take (o' + k) a) = o' + k"
    using assms by simp
  have "drop o' (take (o' + k) a @ xs @ drop (o' + (k + length xs)) a)
      = take k (drop o' a) @ xs @ drop (o' + (k + length xs)) a"
    using l by (simp add: drop_take)
  moreover have "length (take k (drop o' a)) = k"
    using assms by simp
  ultimately show ?thesis by simp
qed

lemma append_slice_elems:
  assumes s: "wf_slice H s" and t: "wf_slice H t"
    and ap: "append_slice grow H s t = (u, H1)"
  shows "elems H1 u = elems H s @ elems H t" and "objs H1 = objs H"
proof -
  define xs where "xs = elems H t"
  define n where "n = len s + len t"
  have lx: "length xs = len t"
    unfolding xs_def using t by (rule elems_length)
  have ls: "length (elems H s) = len s"
    using s by (rule elems_length)
  show "objs H1 = objs H"
    using ap by (auto simp: append_slice_def Let_def split: if_splits)
  show "elems H1 u = elems H s @ elems H t"
  proof (cases "n \<le> cap s")
    case True
    define a where "a = arrays H ! arr s"
    define a' where "a' = take (off s + len s) a @ xs @ drop (off s + n) a"
    have u: "u = s\<lparr>len := n\<rparr>" and H1: "H1 = H\<lparr>arrays := (arrays H)[arr s := a']\<rparr>"
      using ap True by (simp_all add: append_slice_def Let_def xs_def n_def a_def a'_def)
    show ?thesis
    proof (cases "n = 0")
      case True
      then show ?thesis
        by (simp add: u elems_def n_def)
    next
      case False
      with True s have i: "arr s < length (arrays H)" and b: "off s + cap s \<le> length a"
        by (auto simp: wf_slice_def a_def n_def)
      have fit: "off s + len s + length xs \<le> length a"
        using True b lx by (simp add: n_def)
      have n: "n = len s + length xs"
        by (simp add: n_def lx)
      have "elems H1 u = take n (drop (off s) a')"
        using False i by (simp add: u H1 elems_def)
      also have "\<dots> = take (len s) (drop (off s) a) @ xs"
        unfolding a'_def n using fit by (rule write_behind)
      also have "take (len s) (drop (off s) a) = elems H s"
        by (simp add: elems_def a_def)
      finally show ?thesis
        by (simp add: xs_def)
    qed
  next
    case False
    define c where "c = max n (grow (cap s) n)"
    define b where "b = elems H s @ xs @ replicate (c - n) None"
    have u: "u = \<lparr>arr = length (arrays H), off = 0, len = n, cap = c\<rparr>"
      and H1: "H1 = H\<lparr>arrays := arrays H @ [b]\<rparr>"
      using ap False by (simp_all add: append_slice_def Let_def xs_def n_def c_def b_def)
    have nz: "n \<noteq> 0"
      using False by simp
    have "elems H1 u = take n b"
      using nz by (simp add: u H1 elems_def)
    also have "\<dots> = elems H s @ xs"
      by (simp add: b_def n_def ls lx)
    finally show ?thesis
      by (simp add: xs_def)
  qed
qed

lemma append_slice_nothing:
  assumes "wf_slice H s" and "len t = 0"
  shows "append_slice grow H s t = (s, H)"
proof -
  have "elems H t = []"
    using assms(2) by (simp add: elems_def)
  moreover have "len s \<le> cap s"
    using assms(1) by (simp add: wf_slice_def)
  ultimately show ?thesis
    using assms(2) by (simp add: append_slice_def Let_def)
qed

lemma steps_deref: "steps H q = Some xs \<Longrightarrow> \<exists>Qv. deref H q = Some Qv \<and> elems H (fns Qv) = xs"
  by (auto simp: steps_def split: option.splits)

lemma deref_Some:
  "deref H q = Some Qv \<Longrightarrow> \<exists>p. q = Some p \<and> p < length (objs H) \<and> objs H ! p = Qv"
  by (auto simp: deref_def split: option.splits if_splits)

lemma elems_objs_irrelevant: "elems (H\<lparr>objs := os\<rparr>) t = elems H t"
  by (simp add: elems_def)

lemma Add_steps:
  assumes st: "steps H q = Some xs" and wq: "wf_chain H q" and wt: "wf_slice H t"
  shows "\<exists>H1. Add grow H q t = Inr H1 \<and> steps H1 q = Some (xs @ elems H t)"
proof -
  from st obtain Qv where d: "deref H q = Some Qv" and e: "elems H (fns Qv) = xs"
    using steps_deref by blast
  from d obtain p where q: "q = Some p" and p: "p < length (objs H)" and o: "objs H ! p = Qv"
    using deref_Some by blast
  have ws: "wf_slice H (fns Qv)"
    using wq d by (simp add: wf_chain_def)
  obtain u H1 where ap: "append_slice grow H (fns Qv) t = (u, H1)"
    by (cases "append_slice grow H (fns Qv) t")
  have el: "elems H1 u = xs @ elems H t" and ob: "objs H1 = objs H"
    using append_slice_elems [OF ws wt ap] e by simp_all
  let ?H2 = "H1\<lparr>objs := (objs H1)[p := (objs H1 ! p)\<lparr>fns := u\<rparr>]\<rparr>"
  have "Add grow H q t = Inr ?H2"
    using q p o ap by (simp add: Add_def)
  moreover have "steps ?H2 q = Some (xs @ elems H t)"
    using q p ob el by (simp add: steps_def deref_def elems_objs_irrelevant)
  ultimately show ?thesis by blast
qed

lemma Add_nothing:
  assumes wq: "wf_chain H q" and z: "len t = 0"
  shows "Add grow H q t = Inr H"
proof -
  from wq obtain Qv where d: "deref H q = Some Qv" and ws: "wf_slice H (fns Qv)"
    by (auto simp: wf_chain_def split: option.splits)
  from d obtain p where q: "q = Some p" and p: "p < length (objs H)" and o: "objs H ! p = Qv"
    using deref_Some by blast
  have "append_slice grow H (fns Qv) t = (fns Qv, H)"
    using ws z by (rule append_slice_nothing)
  moreover have "(objs H)[p := Qv] = objs H"
    using o by (metis list_update_id)
  ultimately show ?thesis
    using q p o by (simp add: Add_def)
qed

lemma New_steps:
  assumes "New H fs = (q, H1)"
  shows "steps H1 q = Some (elems H fs)" and "deref H1 q = Some \<lparr>fns = fs\<rparr>"
    and "arrays H1 = arrays H"
  using assms by (auto simp: New_def steps_def deref_def elems_def)

lemma New_keeps_wf: "New H fs = (q, H1) \<Longrightarrow> wf_slice H1 t = wf_slice H t"
  by (auto simp: New_def wf_slice_def)

lemma New_keeps_elems: "New H fs = (q, H1) \<Longrightarrow> elems H1 t = elems H t"
  by (auto simp: New_def elems_def)

lemma variadic_elems:
  assumes "variadic H xs = (t, H1)"
  shows "elems H1 t = xs" and "wf_slice H1 t"
  using assms by (auto simp: variadic_def elems_def wf_slice_def split: if_splits)

lemma New_variadic_steps:
  "variadic H xs = (t, H1) \<Longrightarrow> New H1 t = (q, H2) \<Longrightarrow> steps H2 q = Some xs"
  using New_steps(1) variadic_elems(1) by fastforce

text \<open>
  Every sequence of middleware is held by some chain: \<^verbatim>\<open>New\<close> called with the
  steps as its arguments builds one. So a hypothesis \<open>steps H q = Some xs\<close> in the claims
  below leaves out no sequence \<open>xs\<close>.
\<close>

lemma steps_exist: "\<exists>H q. steps H q = Some xs"
proof -
  obtain t H1 where v: "variadic \<lparr>arrays = [], objs = []\<rparr> xs = (t, H1)"
    by (cases "variadic \<lparr>arrays = [], objs = []\<rparr> xs")
  obtain q H2 where n: "New H1 t = (q, H2)"
    by (cases "New H1 t")
  from v n have "steps H2 q = Some xs"
    by (rule New_variadic_steps)
  then show ?thesis by blast
qed

lemma Run_reads:
  "steps H q = Some xs \<Longrightarrow>
     Run H q c w r s =
       (case call_mw (chain xs) c w r s of Inl p \<Rightarrow> Inl p | Inr (c1, s1) \<Rightarrow> Inr s1)"
  by (auto simp: steps_def Run_def split: option.splits)

lemma Then_reads:
  "steps H q = Some xs \<Longrightarrow>
     invoke (Then nc H q fn) H' w r s =
       (case call_mw (chain xs) (nc r) w r s of
          Inl p \<Rightarrow> Inl p
        | Inr (c1, s1) \<Rightarrow>
            (case Err c1 of
               Inl e \<Rightarrow> Inl (e, s1)
             | Inr e \<Rightarrow> if e = None then call_fn fn c1 w r s1 else Inr s1))"
  by (auto simp: steps_def Then_def split: option.splits)

lemma Handle_reads:
  "steps H q = Some xs \<Longrightarrow>
     serve nc (Handle H q h) H' w r s =
       (case call_mw (chain xs) (nc r) w r s of
          Inl p \<Rightarrow> Inl p
        | Inr (c1, s1) \<Rightarrow>
            (case Err c1 of
               Inl e \<Rightarrow> Inl (e, s1)
             | Inr e \<Rightarrow> if e = None then call_ServeHTTP h c1 w r s1 else Inr s1))"
  by (auto simp: steps_def Handle_def handler_ServeHTTP_def split: option.splits sum.splits)

section \<open>The claims\<close>

text \<open>
  C1. For every sequence of middleware \<open>ms\<close> and every input \<open>(c, w, r)\<close>: when the
  steps before position \<open>k\<close> all pass and the step at position \<open>k\<close> returns a Context
  \<open>ck\<close> whose error is not nil, the composed chain returns exactly \<open>ck\<close> together with
  the state that step left. With every step probed, the trace of the run is
  \<open>Step 0, \<dots>, Step k\<close>: no step at a position greater than \<open>k\<close> is invoked, and
  the handlers that \<^verbatim>\<open>Then\<close> and \<^verbatim>\<open>Handle\<close> build from a chain \<open>q\<close> holding
  these steps do not invoke the terminal unit either, in whatever heap they are called.
\<close>

theorem first_failure_stops_chain:
  assumes k: "k < length ms"
    and pre: "all_pass (take k ms) c w r s = Some (c1, s1)"
    and step: "(ms ! k) c1 w r s1 = Inr (Some ck, sk)"
    and fail: "err ck \<noteq> None"
  shows "call_mw (chain (map Some ms)) c w r s = Inr (Some ck, sk)
    \<and> call_mw (chain (probes 0 ms)) c w r ([], s) = Inr (Some ck, (map Step [0..<Suc k], sk))
    \<and> (steps H q = Some (probes 0 ms) \<longrightarrow>
         invoke (Then (\<lambda>_. c) H q (Some (probe_fn f))) H' w r ([], s)
           = Inr (map Step [0..<Suc k], sk)
         \<and> serve (\<lambda>_. c) (Handle H q (Some (Handler (probe_fn f)))) H' w r ([], s)
           = Inr (map Step [0..<Suc k], sk))"
proof -
  from k obtain pre post where ms: "ms = pre @ ms ! k # post" and len: "length pre = k"
    and tk: "pre = take k ms"
    by (rule split_at)
  have p: "all_pass pre c w r s = Some (c1, s1)"
    using pre tk by simp
  have plain: "call_mw (chain (map Some ms)) c w r s = Inr (Some ck, sk)"
    using chain_pass_stop [where m = "ms ! k" and post = post, OF p step fail] ms by simp
  have probed:
    "call_mw (chain (probes 0 ms)) c w r ([], s) = Inr (Some ck, (map Step [0..<Suc k], sk))"
    using chain_probes_stop [where m = "ms ! k" and post = post, OF p step fail] ms len by simp
  have handlers:
    "invoke (Then (\<lambda>_. c) H q (Some (probe_fn f))) H' w r ([], s)
       = Inr (map Step [0..<Suc k], sk)
     \<and> serve (\<lambda>_. c) (Handle H q (Some (Handler (probe_fn f)))) H' w r ([], s)
       = Inr (map Step [0..<Suc k], sk)"
    if q: "steps H q = Some (probes 0 ms)"
    using probed fail by (auto simp: Then_reads [OF q] Handle_reads [OF q])
  show ?thesis
    using plain probed handlers by blast
qed

theorem first_failure_stops_chain_witness:
  "Suc 0 < length [\<lambda>c w r s. Inr (c, s + 1),
                  \<lambda>c w r s. Inr (Some (Ctx [] (Some ''denied'')), s + 10),
                  \<lambda>c w r s. Inr (c, s + (100::nat))]
   \<and> all_pass (take (Suc 0) [\<lambda>c w r s. Inr (c, s + 1),
                  \<lambda>c w r s. Inr (Some (Ctx [] (Some ''denied'')), s + 10),
                  \<lambda>c w r s. Inr (c, s + (100::nat))]) (Some (Ctx [] None)) () () 0
        = Some (Some (Ctx [] None), 1)
   \<and> ([\<lambda>c w r s. Inr (c, s + 1),
        \<lambda>c w r s. Inr (Some (Ctx [] (Some ''denied'')), s + 10),
        \<lambda>c w r s. Inr (c, s + (100::nat))] ! Suc 0) (Some (Ctx [] None)) () () 1
        = Inr (Some (Ctx [] (Some ''denied'')), 11)
   \<and> err (Ctx [] (Some ''denied'')) \<noteq> None
   \<and> steps \<lparr>arrays = [probes 0 [\<lambda>c w r s. Inr (c, s + 1),
                  \<lambda>c w r s. Inr (Some (Ctx [] (Some ''denied'')), s + 10),
                  \<lambda>c w r s. Inr (c, s + (100::nat))]],
             objs = [\<lparr>fns = \<lparr>arr = 0, off = 0, len = 3, cap = 3\<rparr>\<rparr>]\<rparr> (Some 0)
        = Some (probes 0 [\<lambda>c (w::unit) (r::unit) s. Inr (c, s + 1),
                  \<lambda>c w r s. Inr (Some (Ctx [] (Some ''denied'')), s + 10),
                  \<lambda>c w r s. Inr (c, s + (100::nat))])
   \<and> call_mw (chain (map Some [\<lambda>c w r s. Inr (c, s + 1),
          \<lambda>c w r s. Inr (Some (Ctx [] (Some ''denied'')), s + 10),
          \<lambda>c w r s. Inr (c, s + (100::nat))])) (Some (Ctx [] None)) () () 0
        = Inr (Some (Ctx [] (Some ''denied'')), 11)
   \<and> call_mw (chain (probes 0 [\<lambda>c w r s. Inr (c, s + 1),
          \<lambda>c w r s. Inr (Some (Ctx [] (Some ''denied'')), s + 10),
          \<lambda>c w r s. Inr (c, s + (100::nat))])) (Some (Ctx [] None)) () () ([], 0)
        = Inr (Some (Ctx [] (Some ''denied'')), ([Step 0, Step 1], 11))
   \<and> invoke (Then (\<lambda>_. Some (Ctx [] None))
          \<lparr>arrays = [probes 0 [\<lambda>c w r s. Inr (c, s + 1),
                  \<lambda>c w r s. Inr (Some (Ctx [] (Some ''denied'')), s + 10),
                  \<lambda>c w r s. Inr (c, s + (100::nat))]],
            objs = [\<lparr>fns = \<lparr>arr = 0, off = 0, len = 3, cap = 3\<rparr>\<rparr>]\<rparr> (Some 0)
          (Some (probe_fn (\<lambda>c w r s. Inr (s + 1000)))))
          \<lparr>arrays = [], objs = []\<rparr> () () ([], 0)
        = Inr ([Step 0, Step 1], 11)"
proof -
  let ?ms = "[\<lambda>c w r s. Inr (c, s + 1),
              \<lambda>c w r s. Inr (Some (Ctx [] (Some ''denied'')), s + 10),
              \<lambda>c w r s. Inr (c, s + (100::nat))]
             :: (unit, unit, nat) mwfun list"
  let ?H = "\<lparr>arrays = [probes 0 ?ms],
             objs = [\<lparr>fns = \<lparr>arr = 0, off = 0, len = 3, cap = 3\<rparr>\<rparr>]\<rparr>"
  have h1: "Suc 0 < length ?ms" by simp
  have h2: "all_pass (take (Suc 0) ?ms) (Some (Ctx [] None)) () () 0
      = Some (Some (Ctx [] None), 1)" by simp
  have h3: "(?ms ! Suc 0) (Some (Ctx [] None)) () () 1
      = Inr (Some (Ctx [] (Some ''denied'')), 11)" by simp
  have h4: "err (Ctx [] (Some ''denied'')) \<noteq> None" by simp
  have h5: "steps ?H (Some 0) = Some (probes 0 ?ms)"
    by (simp add: steps_def deref_def elems_def)
  note t = first_failure_stops_chain [OF h1 h2 h3 h4, of ?H "Some 0"
      "\<lambda>c w r s. Inr (s + 1000)" "\<lparr>arrays = [], objs = []\<rparr>"]
  show ?thesis
    using h1 h2 h3 h4 h5 t by simp
qed

lemma chain_pass_all:
  "all_pass ms c w r s = Some (c1, s1) \<Longrightarrow>
     call_mw (chain (map Some ms)) c w r s = Inr (c1, s1)"
  using chain_pass [of ms c w r s c1 s1 "[]"] by (simp add: chain_Nil)

lemma chain_probes_pass_all:
  "all_pass ms c w r s = Some (c1, s1) \<Longrightarrow>
     call_mw (chain (probes 0 ms)) c w r ([], s) = Inr (c1, (map Step [0..<length ms], s1))"
  using chain_probes_pass [of ms c w r s c1 s1 0 "[]" "[]"] by (simp add: chain_Nil)

lemma all_pass_snoc:
  "all_pass pre c w r s = Some (c1, s1) \<Longrightarrow> m c1 w r s1 = Inr (Some cn, sn) \<Longrightarrow>
     err cn = None \<Longrightarrow> all_pass (pre @ [m]) c w r s = Some (Some cn, sn)"
  by (induction pre arbitrary: c s) (auto split: sum.splits option.splits if_splits)

lemma probe_fn_trace: "h_trace (probe_fn f c w r (tr, s)) = tr @ [Terminal]"
proof (cases "f c w r s")
  case (Inl p)
  then show ?thesis by (cases p) simp
next
  case (Inr s1)
  then show ?thesis by simp
qed

text \<open>
  C2. For every sequence of middleware that has a last step \<open>m\<close> and in which no step
  signals failure (the steps \<open>pre\<close> before \<open>m\<close> all pass, and \<open>m\<close> returns a Context
  \<open>cn\<close> whose error is nil), the handlers that \<^verbatim>\<open>Then\<close> and \<^verbatim>\<open>Handle\<close> build
  from a chain holding these steps run the terminal unit on \<open>cn\<close>, the Context produced
  by the last step, and on the state that step left; with every unit probed the trace is
  all steps in order followed by one \<open>Terminal\<close>, so the terminal unit runs exactly once.
\<close>

theorem terminal_runs_once_after_last_step:
  assumes pre: "all_pass pre c w r s = Some (c1, s1)"
    and last: "m c1 w r s1 = Inr (Some cn, sn)"
    and ok: "err cn = None"
    and q: "steps H q = Some (map Some (pre @ [m]))"
    and qp: "steps Hp qp = Some (probes 0 (pre @ [m]))"
  shows "invoke (Then (\<lambda>_. c) H q (Some f)) H' w r s = f (Some cn) w r sn
    \<and> serve (\<lambda>_. c) (Handle H q (Some (Handler f))) H' w r s = f (Some cn) w r sn
    \<and> h_trace (invoke (Then (\<lambda>_. c) Hp qp (Some (probe_fn f))) Hp' w r ([], s))
         = map Step [0..<Suc (length pre)] @ [Terminal]
    \<and> h_trace (serve (\<lambda>_. c) (Handle Hp qp (Some (Handler (probe_fn f)))) Hp' w r ([], s))
         = map Step [0..<Suc (length pre)] @ [Terminal]"
proof -
  have all: "all_pass (pre @ [m]) c w r s = Some (Some cn, sn)"
    using pre last ok by (rule all_pass_snoc)
  have plain: "call_mw (chain (map Some (pre @ [m]))) c w r s = Inr (Some cn, sn)"
    using all by (rule chain_pass_all)
  have probed: "call_mw (chain (probes 0 (pre @ [m]))) c w r ([], s)
      = Inr (Some cn, (map Step [0..<length (pre @ [m])], sn))"
    using all by (rule chain_probes_pass_all)
  have t1: "invoke (Then (\<lambda>_. c) H q (Some f)) H' w r s = f (Some cn) w r sn"
    using plain ok by (simp add: Then_reads [OF q])
  have t2: "serve (\<lambda>_. c) (Handle H q (Some (Handler f))) H' w r s = f (Some cn) w r sn"
    using plain ok by (simp add: Handle_reads [OF q])
  have t3: "invoke (Then (\<lambda>_. c) Hp qp (Some (probe_fn f))) Hp' w r ([], s)
      = probe_fn f (Some cn) w r (map Step [0..<Suc (length pre)], sn)"
    using probed ok by (simp add: Then_reads [OF qp])
  have t4: "serve (\<lambda>_. c) (Handle Hp qp (Some (Handler (probe_fn f)))) Hp' w r ([], s)
      = probe_fn f (Some cn) w r (map Step [0..<Suc (length pre)], sn)"
    using probed ok by (simp add: Handle_reads [OF qp])
  show ?thesis
    unfolding t3 t4 probe_fn_trace using t1 t2 by simp
qed

theorem terminal_runs_once_after_last_step_witness:
  "all_pass [\<lambda>c w r s. Inr (c, s + (1::nat))] (Some (Ctx [] None)) () () 0
      = Some (Some (Ctx [] None), 1)
   \<and> (\<lambda>c w r s. Inr (Some (Ctx [(''x'', 1)] None), s + 10)) (Some (Ctx [] None)) () () (1::nat)
      = (Inr (Some (Ctx [(''x'', 1)] None), 11) :: (fault \<times> nat) + (Context \<times> nat))
   \<and> err (Ctx [(''x'', 1)] None) = None
   \<and> steps \<lparr>arrays = [map Some ([\<lambda>c w r s. Inr (c, s + 1)]
                 @ [\<lambda>c w r s. Inr (Some (Ctx [(''x'', 1)] None), s + 10)])],
             objs = [\<lparr>fns = \<lparr>arr = 0, off = 0, len = 2, cap = 2\<rparr>\<rparr>]\<rparr> (Some 0)
      = Some (map Some ([\<lambda>c (w::unit) (r::unit) s. Inr (c, s + (1::nat))]
                 @ [\<lambda>c w r s. Inr (Some (Ctx [(''x'', 1)] None), s + 10)]))
   \<and> steps \<lparr>arrays = [probes 0 ([\<lambda>c w r s. Inr (c, s + 1)]
                 @ [\<lambda>c w r s. Inr (Some (Ctx [(''x'', 1)] None), s + 10)])],
             objs = [\<lparr>fns = \<lparr>arr = 0, off = 0, len = 2, cap = 2\<rparr>\<rparr>]\<rparr> (Some 0)
      = Some (probes 0 ([\<lambda>c (w::unit) (r::unit) s. Inr (c, s + (1::nat))]
                 @ [\<lambda>c w r s. Inr (Some (Ctx [(''x'', 1)] None), s + 10)]))
   \<and> invoke (Then (\<lambda>_. Some (Ctx [] None))
        \<lparr>arrays = [map Some ([\<lambda>c w r s. Inr (c, s + 1)]
                 @ [\<lambda>c w r s. Inr (Some (Ctx [(''x'', 1)] None), s + 10)])],
          objs = [\<lparr>fns = \<lparr>arr = 0, off = 0, len = 2, cap = 2\<rparr>\<rparr>]\<rparr> (Some 0)
        (Some (\<lambda>c w r s. Inr (s + (case c of None \<Rightarrow> 0 | Some x \<Rightarrow> 100 * length (vals x))))))
        \<lparr>arrays = [], objs = []\<rparr> () () 0
      = Inr 111
   \<and> h_trace (invoke (Then (\<lambda>_. Some (Ctx [] None))
        \<lparr>arrays = [probes 0 ([\<lambda>c w r s. Inr (c, s + 1)]
                 @ [\<lambda>c w r s. Inr (Some (Ctx [(''x'', 1)] None), s + 10)])],
          objs = [\<lparr>fns = \<lparr>arr = 0, off = 0, len = 2, cap = 2\<rparr>\<rparr>]\<rparr> (Some 0)
        (Some (probe_fn
           (\<lambda>c w r s. Inr (s + (case c of None \<Rightarrow> 0 | Some x \<Rightarrow> 100 * length (vals x)))))))
        \<lparr>arrays = [], objs = []\<rparr> () () ([], 0))
      = [Step 0, Step 1, Terminal]"
proof -
  let ?pre = "[\<lambda>c w r s. Inr (c, s + 1)] :: (unit, unit, nat) mwfun list"
  let ?m = "(\<lambda>c w r s. Inr (Some (Ctx [(''x'', 1)] None), s + 10)) :: (unit, unit, nat) mwfun"
  let ?f = "(\<lambda>c w r s. Inr (s + (case c of None \<Rightarrow> 0 | Some x \<Rightarrow> 100 * length (vals x))))
    :: (unit, unit, nat) hfun"
  let ?H = "\<lparr>arrays = [map Some (?pre @ [?m])],
             objs = [\<lparr>fns = \<lparr>arr = 0, off = 0, len = 2, cap = 2\<rparr>\<rparr>]\<rparr>"
  let ?Hp = "\<lparr>arrays = [probes 0 (?pre @ [?m])],
              objs = [\<lparr>fns = \<lparr>arr = 0, off = 0, len = 2, cap = 2\<rparr>\<rparr>]\<rparr>"
  have h1: "all_pass ?pre (Some (Ctx [] None)) () () 0 = Some (Some (Ctx [] None), 1)"
    by simp
  have h2: "?m (Some (Ctx [] None)) () () 1 = Inr (Some (Ctx [(''x'', 1)] None), 11)"
    by simp
  have h3: "err (Ctx [(''x'', 1)] None) = None"
    by simp
  have h4: "steps ?H (Some 0) = Some (map Some (?pre @ [?m]))"
    by (simp add: steps_def deref_def elems_def)
  have h5: "steps ?Hp (Some 0) = Some (probes 0 (?pre @ [?m]))"
    by (simp add: steps_def deref_def elems_def)
  note t = terminal_runs_once_after_last_step
      [where m = ?m and f = ?f and H' = "\<lparr>arrays = [], objs = []\<rparr>"
         and Hp' = "\<lparr>arrays = [], objs = []\<rparr>", OF h1 h2 h3 h4 h5]
  show ?thesis
    using h1 h2 h3 h4 h5 t by simp
qed

text \<open>
  C3 (corrected). The composition of the empty sequence is the identity on the Context
  and changes nothing else. \<^verbatim>\<open>Then\<close> and \<^verbatim>\<open>Handle\<close> check the error of the
  Context before they call the terminal unit, also when the chain is empty: the handlers
  built from a chain without steps behave as a direct call of \<open>fn\<close> or \<open>h\<close> with the
  freshly derived Context when that Context carries no failure. When it carries one,
  the terminal unit is not called, as the counterexample shows.
\<close>

theorem empty_chain_is_identity:
  assumes "nc r = Some c0" and "err c0 = None"
  shows "call_mw (chain []) c w r s = Inr (c, s)
    \<and> (steps H q = Some [] \<longrightarrow>
         Run H q c w r s = Inr s
         \<and> invoke (Then nc H q fn) H' w r s = call_fn fn (Some c0) w r s
         \<and> serve nc (Handle H q h) H' w r s = call_ServeHTTP h (Some c0) w r s)"
  using assms by (simp add: chain_Nil Then_reads Handle_reads Run_reads)

theorem empty_chain_is_identity_witness:
  "(\<lambda>r. Some (Ctx [(''user'', 7)] None)) () = Some (Ctx [(''user'', 7)] None)
   \<and> err (Ctx [(''user'', 7)] None) = None
   \<and> New \<lparr>arrays = [], objs = []\<rparr> \<lparr>arr = 0, off = 0, len = 0, cap = 0\<rparr>
        = (Some 0, \<lparr>arrays = ([] :: (unit, unit, nat) Middleware list list),
                    objs = [\<lparr>fns = \<lparr>arr = 0, off = 0, len = 0, cap = 0\<rparr>\<rparr>]\<rparr>)
   \<and> steps \<lparr>arrays = ([] :: (unit, unit, nat) Middleware list list),
             objs = [\<lparr>fns = \<lparr>arr = 0, off = 0, len = 0, cap = 0\<rparr>\<rparr>]\<rparr> (Some 0) = Some []
   \<and> call_mw (chain []) (Some (Ctx [] (Some ''canceled''))) () () (0::nat)
        = Inr (Some (Ctx [] (Some ''canceled'')), 0)
   \<and> invoke (Then (\<lambda>r. Some (Ctx [(''user'', 7)] None))
        \<lparr>arrays = [], objs = [\<lparr>fns = \<lparr>arr = 0, off = 0, len = 0, cap = 0\<rparr>\<rparr>]\<rparr> (Some 0)
        (Some (\<lambda>c w r s. Inr (Suc s)))) \<lparr>arrays = [], objs = []\<rparr> () () (0::nat) = Inr 1
   \<and> serve (\<lambda>r. Some (Ctx [(''user'', 7)] None))
        (Handle \<lparr>arrays = [], objs = [\<lparr>fns = \<lparr>arr = 0, off = 0, len = 0, cap = 0\<rparr>\<rparr>]\<rparr> (Some 0)
           (Some (Handler (\<lambda>c w r s. Inr (Suc s)))))
        \<lparr>arrays = [], objs = []\<rparr> () () (0::nat) = Inr 1"
proof -
  let ?H = "\<lparr>arrays = ([] :: (unit, unit, nat) Middleware list list),
             objs = [\<lparr>fns = \<lparr>arr = 0, off = 0, len = 0, cap = 0\<rparr>\<rparr>]\<rparr>"
  have h1: "(\<lambda>r. Some (Ctx [(''user'', 7)] None)) () = Some (Ctx [(''user'', 7)] None)"
    by simp
  have h2: "err (Ctx [(''user'', 7)] None) = None"
    by simp
  have h3: "steps ?H (Some 0) = Some []"
    by (simp add: steps_def deref_def elems_def)
  have n: "New \<lparr>arrays = [], objs = []\<rparr> \<lparr>arr = 0, off = 0, len = 0, cap = 0\<rparr> = (Some 0, ?H)"
    by (simp add: New_def)
  note t = empty_chain_is_identity [where nc = "\<lambda>r. Some (Ctx [(''user'', 7)] None)"
      and c = "Some (Ctx [] (Some ''canceled''))" and s = "0::nat"
      and fn = "Some (\<lambda>c w r s. Inr (Suc s))"
      and h = "Some (Handler (\<lambda>c w r s. Inr (Suc s)))" and w = "()" and r = "()"
      and H' = "\<lparr>arrays = [], objs = []\<rparr>" and H = ?H and q = "Some 0", OF h1 h2]
  show ?thesis
    using h2 h3 n t by simp
qed

theorem empty_chain_then_counterexample:
  "invoke (Then (\<lambda>r. Some (Ctx [] (Some ''canceled'')))
      \<lparr>arrays = [], objs = [\<lparr>fns = \<lparr>arr = 0, off = 0, len = 0, cap = 0\<rparr>\<rparr>]\<rparr> (Some 0)
      (Some (\<lambda>c w r s. Inr (Suc s))))
      \<lparr>arrays = [], objs = [\<lparr>fns = \<lparr>arr = 0, off = 0, len = 0, cap = 0\<rparr>\<rparr>]\<rparr> () () (0::nat)
   \<noteq> call_fn (Some (\<lambda>c w r s. Inr (Suc s)))
      ((\<lambda>r. Some (Ctx [] (Some ''canceled''))) ()) () () (0::nat)"
  by (simp add: Then_def deref_def elems_def chain_Nil)

text \<open>
  C4 (corrected). For a chain holding \<open>[A, B]\<close> where \<open>A\<close> returns a Context \<open>cA\<close>
  carrying a failure, the composed chain returns \<open>cA\<close> and the state \<open>A\<close> left, and \<open>B\<close>
  does not run: the trace is \<open>Step 0\<close> alone, and a terminal unit attached by
  \<^verbatim>\<open>Then\<close> does not run either. \<^verbatim>\<open>Run\<close> itself has no result value: it drops
  the Context and leaves only the effects of \<open>A\<close>. In the counterexample two chains
  whose first steps fail with different Contexts produce the same outcome of
  \<^verbatim>\<open>Run\<close>.
\<close>

theorem run_stops_after_failed_first_step:
  assumes "A c w r s = Inr (Some cA, sA)" and "err cA \<noteq> None"
  shows "call_mw (chain [Some A, B]) c w r s = Inr (Some cA, sA)
    \<and> (steps H q = Some [Some A, B] \<longrightarrow> Run H q c w r s = Inr sA)
    \<and> call_mw (chain (probes 0 [A, B'])) c w r ([], s) = Inr (Some cA, ([Step 0], sA))
    \<and> (steps Hp qp = Some (probes 0 [A, B']) \<longrightarrow>
         Run Hp qp c w r ([], s) = Inr ([Step 0], sA)
         \<and> invoke (Then (\<lambda>_. c) Hp qp (Some (probe_fn f))) Hp' w r ([], s)
             = Inr ([Step 0], sA))"
proof -
  have plain: "call_mw (chain [Some A, B]) c w r s = Inr (Some cA, sA)"
    and probed: "call_mw (chain (probes 0 [A, B'])) c w r ([], s)
      = Inr (Some cA, ([Step 0], sA))"
    using assms by (simp_all add: chain_Cons)
  have run: "Run H q c w r s = Inr sA" if q: "steps H q = Some [Some A, B]"
    using plain by (simp add: Run_reads [OF q])
  have runp: "Run Hp qp c w r ([], s) = Inr ([Step 0], sA)
      \<and> invoke (Then (\<lambda>_. c) Hp qp (Some (probe_fn f))) Hp' w r ([], s) = Inr ([Step 0], sA)"
    if qp: "steps Hp qp = Some (probes 0 [A, B'])"
    using probed assms(2) by (auto simp: Run_reads [OF qp] Then_reads [OF qp])
  show ?thesis
    using plain probed run runp by blast
qed

theorem run_stops_after_failed_first_step_witness:
  "(\<lambda>c w r s. Inr (Some (Ctx [] (Some ''denied'')), Suc s)) (Some (Ctx [] None)) () () (0::nat)
      = (Inr (Some (Ctx [] (Some ''denied'')), 1) :: (fault \<times> nat) + (Context \<times> nat))
   \<and> err (Ctx [] (Some ''denied'')) \<noteq> None
   \<and> steps \<lparr>arrays = [[Some (\<lambda>c w r s. Inr (Some (Ctx [] (Some ''denied'')), Suc s)),
                        Some (\<lambda>c w r s. Inr (c, s + 10))]],
             objs = [\<lparr>fns = \<lparr>arr = 0, off = 0, len = 2, cap = 2\<rparr>\<rparr>]\<rparr> (Some 0)
        = Some [Some (\<lambda>c (w::unit) (r::unit) s. Inr (Some (Ctx [] (Some ''denied'')), Suc s)),
                Some (\<lambda>c w r s. Inr (c, s + (10::nat)))]
   \<and> steps \<lparr>arrays = [probes 0 [\<lambda>c w r s. Inr (Some (Ctx [] (Some ''denied'')), Suc s),
                        \<lambda>c w r s. Inr (c, s + 10)]],
             objs = [\<lparr>fns = \<lparr>arr = 0, off = 0, len = 2, cap = 2\<rparr>\<rparr>]\<rparr> (Some 0)
        = Some (probes 0 [\<lambda>c (w::unit) (r::unit) s. Inr (Some (Ctx [] (Some ''denied'')), Suc s),
                \<lambda>c w r s. Inr (c, s + (10::nat))])
   \<and> call_mw (chain [Some (\<lambda>c w r s. Inr (Some (Ctx [] (Some ''denied'')), Suc s)),
                      Some (\<lambda>c w r s. Inr (c, s + 10))]) (Some (Ctx [] None)) () () (0::nat)
        = Inr (Some (Ctx [] (Some ''denied'')), 1)
   \<and> Run \<lparr>arrays = [[Some (\<lambda>c w r s. Inr (Some (Ctx [] (Some ''denied'')), Suc s)),
                      Some (\<lambda>c w r s. Inr (c, s + 10))]],
           objs = [\<lparr>fns = \<lparr>arr = 0, off = 0, len = 2, cap = 2\<rparr>\<rparr>]\<rparr> (Some 0)
          (Some (Ctx [] None)) () () (0::nat)
        = Inr 1
   \<and> Run \<lparr>arrays = [probes 0 [\<lambda>c w r s. Inr (Some (Ctx [] (Some ''denied'')), Suc s),
                      \<lambda>c w r s. Inr (c, s + 10)]],
           objs = [\<lparr>fns = \<lparr>arr = 0, off = 0, len = 2, cap = 2\<rparr>\<rparr>]\<rparr> (Some 0)
          (Some (Ctx [] None)) () () ([], 0::nat)
        = Inr ([Step 0], 1)"
proof -
  let ?A = "(\<lambda>c w r s. Inr (Some (Ctx [] (Some ''denied'')), Suc s)) :: (unit, unit, nat) mwfun"
  let ?B = "(\<lambda>c w r s. Inr (c, s + 10)) :: (unit, unit, nat) mwfun"
  let ?H = "\<lparr>arrays = [[Some ?A, Some ?B]],
             objs = [\<lparr>fns = \<lparr>arr = 0, off = 0, len = 2, cap = 2\<rparr>\<rparr>]\<rparr>"
  let ?Hp = "\<lparr>arrays = [probes 0 [?A, ?B]],
              objs = [\<lparr>fns = \<lparr>arr = 0, off = 0, len = 2, cap = 2\<rparr>\<rparr>]\<rparr>"
  have h1: "?A (Some (Ctx [] None)) () () 0 = Inr (Some (Ctx [] (Some ''denied'')), 1)"
    by simp
  have h2: "err (Ctx [] (Some ''denied'')) \<noteq> None"
    by simp
  have h3: "steps ?H (Some 0) = Some [Some ?A, Some ?B]"
    by (simp add: steps_def deref_def elems_def)
  have h4: "steps ?Hp (Some 0) = Some (probes 0 [?A, ?B])"
    by (simp add: steps_def deref_def elems_def)
  note t = run_stops_after_failed_first_step
      [where A = ?A and B = "Some ?B" and B' = ?B and w = "()" and r = "()"
         and c = "Some (Ctx [] None)" and s = 0 and f = "\<lambda>c w r s. Inr s"
         and Hp' = "\<lparr>arrays = [], objs = []\<rparr>" and H = ?H and q = "Some 0"
         and Hp = ?Hp and qp = "Some 0", OF h1 h2]
  show ?thesis
    using h2 h3 h4 t by simp
qed

theorem run_returns_no_context_counterexample:
  "Run \<lparr>arrays = [[Some (\<lambda>c w r s. Inr (Some (Ctx [] (Some ''denied'')), Suc s)),
                   Some (\<lambda>c w r s. Inr (c, s + 10))]],
        objs = [\<lparr>fns = \<lparr>arr = 0, off = 0, len = 2, cap = 2\<rparr>\<rparr>]\<rparr> (Some 0)
       (Some (Ctx [] None)) () () (0::nat)
     = Run \<lparr>arrays = [[Some (\<lambda>c w r s. Inr (Some (Ctx [] (Some ''timeout'')), Suc s)),
                   Some (\<lambda>c w r s. Inr (c, s + 10))]],
        objs = [\<lparr>fns = \<lparr>arr = 0, off = 0, len = 2, cap = 2\<rparr>\<rparr>]\<rparr> (Some 0)
       (Some (Ctx [] None)) () () (0::nat)
   \<and> call_mw (chain [Some (\<lambda>c w r s. Inr (Some (Ctx [] (Some ''denied'')), Suc s)),
             Some (\<lambda>c w r s. Inr (c, s + 10))]) (Some (Ctx [] None)) () () (0::nat)
     \<noteq> call_mw (chain [Some (\<lambda>c w r s. Inr (Some (Ctx [] (Some ''timeout'')), Suc s)),
             Some (\<lambda>c w r s. Inr (c, s + 10))]) (Some (Ctx [] None)) () () (0::nat)"
  by (simp add: Run_def deref_def elems_def chain_Cons)

lemma probes_trace_extends:
  "\<exists>tr'. mw_trace (call_mw (chain (probes i ms)) c w r (tr, s)) = tr @ tr'"
proof (induction ms arbitrary: i c tr s)
  case Nil
  show ?case by (simp add: chain_Nil)
next
  case (Cons m ms)
  show ?case
  proof (cases "m c w r s")
    case (Inl p)
    then show ?thesis
      by (cases p) (simp add: chain_Cons)
  next
    case (Inr q)
    obtain c1 s1 where q: "q = (c1, s1)"
      by (cases q)
    from Cons.IH [of "Suc i" c1 "tr @ [Step i]" s1] obtain tr' where
      "mw_trace (call_mw (chain (probes (Suc i) ms)) c1 w r (tr @ [Step i], s1))
         = (tr @ [Step i]) @ tr'" ..
    then show ?thesis
      using Inr q by (cases c1) (auto simp: chain_Cons)
  qed
qed

lemma probes_trace_first:
  "\<exists>tr'. mw_trace (call_mw (chain (probes i (m # ms))) c w r (tr, s)) = tr @ Step i # tr'"
proof (cases "m c w r s")
  case (Inl p)
  then show ?thesis
    by (cases p) (simp add: chain_Cons)
next
  case (Inr q)
  obtain c1 s1 where q: "q = (c1, s1)"
    by (cases q)
  from probes_trace_extends [of "Suc i" ms c1 w r "tr @ [Step i]" s1] obtain tr' where
    "mw_trace (call_mw (chain (probes (Suc i) ms)) c1 w r (tr @ [Step i], s1))
       = (tr @ [Step i]) @ tr'" ..
  then show ?thesis
    using Inr q by (cases c1) (auto simp: chain_Cons)
qed

lemma h_trace_Run:
  "steps H q = Some xs \<Longrightarrow>
     h_trace (Run H q c w r (tr, s)) = mw_trace (call_mw (chain xs) c w r (tr, s))"
  by (cases "call_mw (chain xs) c w r (tr, s)") (auto simp: Run_reads)

text \<open>
  C5. The composed chain of a non-empty sequence begins by calling the step at position
  0 on the Context and the state it is given, whatever that Context is: nothing is
  checked before. So for every Context \<open>c\<close>, also one that carries a failure (or is
  nil), the trace of the probed chain begins with \<open>Step 0\<close>, directly and under
  \<^verbatim>\<open>Run\<close> on a chain holding the steps; the error is examined only on the Context
  that the step returns.
\<close>

theorem first_step_runs_unconditionally:
  "(\<exists>tr. mw_trace (call_mw (chain (probes 0 (m # ms))) c w r ([], s)) = Step 0 # tr)
   \<and> (steps H q = Some (probes 0 (m # ms)) \<longrightarrow>
        (\<exists>tr. h_trace (Run H q c w r ([], s)) = Step 0 # tr))
   \<and> call_mw (chain (Some m # fs)) c w r s =
       (case m c w r s of
          Inl p \<Rightarrow> Inl p
        | Inr (c1, s1) \<Rightarrow>
            (case Err c1 of
               Inl e \<Rightarrow> Inl (e, s1)
             | Inr e \<Rightarrow> if e \<noteq> None then Inr (c1, s1) else call_mw (chain fs) c1 w r s1))"
proof -
  have a: "\<exists>tr. mw_trace (call_mw (chain (probes 0 (m # ms))) c w r ([], s)) = Step 0 # tr"
    using probes_trace_first [of 0 m ms c w r "[]" s] by simp
  have b: "\<exists>tr. h_trace (Run H q c w r ([], s)) = Step 0 # tr"
    if "steps H q = Some (probes 0 (m # ms))"
    using a by (simp only: h_trace_Run [OF that])
  show ?thesis
    using a b by (simp add: chain_Cons)
qed

theorem first_step_runs_unconditionally_witness:
  "steps \<lparr>arrays = [probes 0 [\<lambda>c w r s. Inr (c, Suc s), \<lambda>c w r s. Inr (c, s + 10)]],
          objs = [\<lparr>fns = \<lparr>arr = 0, off = 0, len = 2, cap = 2\<rparr>\<rparr>]\<rparr> (Some 0)
     = Some (probes 0 [\<lambda>c (w::unit) (r::unit) s. Inr (c, Suc s),
                       \<lambda>c w r s. Inr (c, s + (10::nat))])
   \<and> (\<exists>tr. h_trace (Run \<lparr>arrays = [probes 0 [\<lambda>c w r s. Inr (c, Suc s),
                                              \<lambda>c w r s. Inr (c, s + 10)]],
                          objs = [\<lparr>fns = \<lparr>arr = 0, off = 0, len = 2, cap = 2\<rparr>\<rparr>]\<rparr> (Some 0)
                      (Some (Ctx [] (Some ''canceled''))) () () ([], 0::nat)) = Step 0 # tr)"
proof -
  let ?m = "(\<lambda>c w r s. Inr (c, Suc s)) :: (unit, unit, nat) mwfun"
  let ?ms = "[\<lambda>c w r s. Inr (c, s + 10)] :: (unit, unit, nat) mwfun list"
  let ?H = "\<lparr>arrays = [probes 0 (?m # ?ms)],
             objs = [\<lparr>fns = \<lparr>arr = 0, off = 0, len = 2, cap = 2\<rparr>\<rparr>]\<rparr>"
  have h: "steps ?H (Some 0) = Some (probes 0 (?m # ?ms))"
    by (simp add: steps_def deref_def elems_def)
  note t = first_step_runs_unconditionally [where m = ?m and ms = ?ms and H = ?H
      and q = "Some 0" and c = "Some (Ctx [] (Some ''canceled''))" and w = "()" and r = "()"
      and s = 0]
  from t h have "\<exists>tr. h_trace (Run ?H (Some 0) (Some (Ctx [] (Some ''canceled''))) () ()
      ([], 0)) = Step 0 # tr"
    by blast
  then show ?thesis
    using h by blast
qed

lemma same_steps:
  assumes "steps H q = Some xs" and "steps K q' = Some xs"
  shows "Run H q = Run K q'" and "Then nc H q fn = Then nc K q' fn"
    and "Handle H q h = Handle K q' h"
proof -
  from assms obtain Qv Qw where "deref H q = Some Qv" "elems H (fns Qv) = xs"
    "deref K q' = Some Qw" "elems K (fns Qw) = xs"
    using steps_deref by blast
  then show "Then nc H q fn = Then nc K q' fn" and "Handle H q h = Handle K q' h"
    by (simp_all add: Then_def Handle_def)
  show "Run H q = Run K q'"
    by (intro ext) (simp add: Run_reads [OF assms(1)] Run_reads [OF assms(2)])
qed

lemma steps_frame:
  assumes "deref H q = Some Qv" and "deref K q = Some Qv"
    and "arrays K ! arr (fns Qv) = arrays H ! arr (fns Qv)"
  shows "steps K q = steps H q"
  using assms by (simp add: steps_def elems_def)

text \<open>
  C6 (corrected). \<^verbatim>\<open>New\<close> keeps the slice it is given and \<^verbatim>\<open>Add\<close> appends to
  it, in place when the capacity allows. For every slice \<open>fs\<close> of initial steps and every
  slice \<open>gs\<close> of further steps, \<^verbatim>\<open>New\<close> followed by \<^verbatim>\<open>Add\<close> yields a chain
  that holds the steps of \<open>fs\<close> followed by those of \<open>gs\<close>, as a chain does that is
  constructed from all these steps at once; the two have the same composed behaviour
  under \<^verbatim>\<open>Run\<close>, \<^verbatim>\<open>Then\<close> and \<^verbatim>\<open>Handle\<close>, and so they have in every later
  heap in which the chain object and the backing array of its slice are unchanged.
  \<^verbatim>\<open>Add\<close> of no step leaves the heap as it is, and \<^verbatim>\<open>Add\<close> keeps the steps
  present, in their order, in front of the new ones. The counterexample is a write
  through another slice that shares the backing array: \<^verbatim>\<open>Add\<close> on a second chain
  built from the same slice replaces the step appended to the first.
\<close>

theorem add_is_construction:
  assumes n: "New H fs = (q, H1)" and wf: "wf_slice H fs" and wg: "wf_slice H gs"
    and v: "variadic K (elems H fs @ elems H gs) = (t, K1)" and n': "New K1 t = (q', K2)"
  shows "(\<exists>H2. Add grow H1 q gs = Inr H2
        \<and> steps H2 q = Some (elems H fs @ elems H gs)
        \<and> steps K2 q' = Some (elems H fs @ elems H gs)
        \<and> Run H2 q = Run K2 q'
        \<and> Then nc H2 q fn = Then nc K2 q' fn
        \<and> Handle H2 q h = Handle K2 q' h
        \<and> (\<forall>H3 Qv. deref H2 q = Some Qv \<and> deref H3 q = Some Qv
              \<and> arrays H3 ! arr (fns Qv) = arrays H2 ! arr (fns Qv)
              \<longrightarrow> steps H3 q = Some (elems H fs @ elems H gs)
                \<and> Run H3 q = Run K2 q'))
    \<and> (wf_chain H0 q0 \<and> len g0 = 0 \<longrightarrow> Add grow H0 q0 g0 = Inr H0)
    \<and> (steps H0 q0 = Some xs \<and> wf_chain H0 q0 \<and> wf_slice H0 g1 \<longrightarrow>
         (\<exists>H'. Add grow H0 q0 g1 = Inr H' \<and> steps H' q0 = Some (xs @ elems H0 g1)))"
proof -
  let ?all = "elems H fs @ elems H gs"
  have s1: "steps H1 q = Some (elems H fs)"
    using n by (rule New_steps(1))
  have w1: "wf_chain H1 q"
    using New_steps(2) [OF n] New_keeps_wf [OF n] wf by (simp add: wf_chain_def)
  have w2: "wf_slice H1 gs"
    using New_keeps_wf [OF n] wg by simp
  from Add_steps [OF s1 w1 w2] obtain H2 where a: "Add grow H1 q gs = Inr H2"
    and s2: "steps H2 q = Some (elems H fs @ elems H1 gs)"
    by blast
  have s2': "steps H2 q = Some ?all"
    using s2 New_keeps_elems [OF n] by simp
  have k: "steps K2 q' = Some ?all"
    using v n' by (rule New_variadic_steps)
  have frame: "steps H3 q = Some ?all \<and> Run H3 q = Run K2 q'"
    if "deref H2 q = Some Qv \<and> deref H3 q = Some Qv
      \<and> arrays H3 ! arr (fns Qv) = arrays H2 ! arr (fns Qv)" for H3 Qv
  proof -
    have "steps H3 q = steps H2 q"
      using that steps_frame [of H2 q Qv H3] by blast
    then have "steps H3 q = Some ?all"
      using s2' by simp
    then show ?thesis
      using same_steps(1) k by blast
  qed
  have first: "\<exists>H2. Add grow H1 q gs = Inr H2
        \<and> steps H2 q = Some ?all \<and> steps K2 q' = Some ?all
        \<and> Run H2 q = Run K2 q' \<and> Then nc H2 q fn = Then nc K2 q' fn
        \<and> Handle H2 q h = Handle K2 q' h
        \<and> (\<forall>H3 Qv. deref H2 q = Some Qv \<and> deref H3 q = Some Qv
              \<and> arrays H3 ! arr (fns Qv) = arrays H2 ! arr (fns Qv)
              \<longrightarrow> steps H3 q = Some ?all \<and> Run H3 q = Run K2 q')"
    using a s2' k same_steps [OF s2' k] frame by blast
  have zero: "wf_chain H0 q0 \<and> len g0 = 0 \<longrightarrow> Add grow H0 q0 g0 = Inr H0"
    using Add_nothing by blast
  have order: "steps H0 q0 = Some xs \<and> wf_chain H0 q0 \<and> wf_slice H0 g1 \<longrightarrow>
         (\<exists>H'. Add grow H0 q0 g1 = Inr H' \<and> steps H' q0 = Some (xs @ elems H0 g1))"
    using Add_steps by blast
  show ?thesis
    using first zero order by blast
qed

theorem add_is_construction_witness:
  "New
       (\<lparr>arrays = [[Some (\<lambda>c w r s. Inr (c, s + 1)), None, None, None],
                   [Some (\<lambda>c w r s. Inr (c, s + 10))]],
         objs = []\<rparr> :: (unit, unit, nat) heap)
         \<lparr>arr = 0, off = 0, len = 1, cap = 4\<rparr>
         = (Some 0,
       \<lparr>arrays = [[Some (\<lambda>c w r s. Inr (c, s + 1)), None, None, None],
                  [Some (\<lambda>c w r s. Inr (c, s + 10))]],
        objs = [\<lparr>fns = \<lparr>arr = 0, off = 0, len = 1, cap = 4\<rparr>\<rparr>]\<rparr>)
   \<and> wf_slice
       (\<lparr>arrays = [[Some (\<lambda>c w r s. Inr (c, s + 1)), None, None, None],
                   [Some (\<lambda>c w r s. Inr (c, s + 10))]],
         objs = []\<rparr> :: (unit, unit, nat) heap)
         \<lparr>arr = 0, off = 0, len = 1, cap = 4\<rparr>
   \<and> wf_slice
       (\<lparr>arrays = [[Some (\<lambda>c w r s. Inr (c, s + 1)), None, None, None],
                   [Some (\<lambda>c w r s. Inr (c, s + 10))]],
         objs = []\<rparr> :: (unit, unit, nat) heap)
         \<lparr>arr = 1, off = 0, len = 1, cap = 1\<rparr>
   \<and> variadic
       (\<lparr>arrays = [], objs = []\<rparr> :: (unit, unit, nat) heap)
         (elems
       \<lparr>arrays = [[Some (\<lambda>c w r s. Inr (c, s + 1)), None, None, None],
                  [Some (\<lambda>c w r s. Inr (c, s + 10))]],
        objs = []\<rparr>
            \<lparr>arr = 0, off = 0, len = 1, cap = 4\<rparr>
          @ elems
       \<lparr>arrays = [[Some (\<lambda>c w r s. Inr (c, s + 1)), None, None, None],
                  [Some (\<lambda>c w r s. Inr (c, s + 10))]],
        objs = []\<rparr>
            \<lparr>arr = 1, off = 0, len = 1, cap = 1\<rparr>)
         = (\<lparr>arr = 0, off = 0, len = 2, cap = 2\<rparr>,
       \<lparr>arrays = [[Some (\<lambda>c w r s. Inr (c, s + 1)), Some (\<lambda>c w r s. Inr (c, s + 10))]],
        objs = []\<rparr>)
   \<and> New
       (\<lparr>arrays = [[Some (\<lambda>c w r s. Inr (c, s + 1)), Some (\<lambda>c w r s. Inr (c, s + 10))]],
         objs = []\<rparr> :: (unit, unit, nat) heap)
         \<lparr>arr = 0, off = 0, len = 2, cap = 2\<rparr>
         = (Some 0,
       \<lparr>arrays = [[Some (\<lambda>c w r s. Inr (c, s + 1)), Some (\<lambda>c w r s. Inr (c, s + 10))]],
        objs = [\<lparr>fns = \<lparr>arr = 0, off = 0, len = 2, cap = 2\<rparr>\<rparr>]\<rparr>)
   \<and> Add (\<lambda>c n. 2 * n)
       (\<lparr>arrays = [[Some (\<lambda>c w r s. Inr (c, s + 1)), None, None, None],
                   [Some (\<lambda>c w r s. Inr (c, s + 10))]],
         objs = [\<lparr>fns = \<lparr>arr = 0, off = 0, len = 1, cap = 4\<rparr>\<rparr>]\<rparr> :: (unit, unit, nat) heap)
         (Some 0) \<lparr>arr = 1, off = 0, len = 1, cap = 1\<rparr>
         = Inr
       \<lparr>arrays = [[Some (\<lambda>c w r s. Inr (c, s + 1)), Some (\<lambda>c w r s. Inr (c, s + 10)), None, None],
                  [Some (\<lambda>c w r s. Inr (c, s + 10))]],
        objs = [\<lparr>fns = \<lparr>arr = 0, off = 0, len = 2, cap = 4\<rparr>\<rparr>]\<rparr>
   \<and> steps
       (\<lparr>arrays = [[Some (\<lambda>c w r s. Inr (c, s + 1)), Some (\<lambda>c w r s. Inr (c, s + 10)), None, None],
                   [Some (\<lambda>c w r s. Inr (c, s + 10))]],
         objs = [\<lparr>fns = \<lparr>arr = 0, off = 0, len = 2, cap = 4\<rparr>\<rparr>]\<rparr> :: (unit, unit, nat) heap)
         (Some 0)
         = Some [Some (\<lambda>c w r s. Inr (c, s + 1)), Some (\<lambda>c w r s. Inr (c, s + 10))]
   \<and> steps
       (\<lparr>arrays = [[Some (\<lambda>c w r s. Inr (c, s + 1)), Some (\<lambda>c w r s. Inr (c, s + 10))]],
         objs = [\<lparr>fns = \<lparr>arr = 0, off = 0, len = 2, cap = 2\<rparr>\<rparr>]\<rparr> :: (unit, unit, nat) heap)
         (Some 0)
         = Some [Some (\<lambda>c w r s. Inr (c, s + 1)), Some (\<lambda>c w r s. Inr (c, s + 10))]
   \<and> Run
       (\<lparr>arrays = [[Some (\<lambda>c w r s. Inr (c, s + 1)), Some (\<lambda>c w r s. Inr (c, s + 10)), None, None],
                   [Some (\<lambda>c w r s. Inr (c, s + 10))]],
         objs = [\<lparr>fns = \<lparr>arr = 0, off = 0, len = 2, cap = 4\<rparr>\<rparr>]\<rparr> :: (unit, unit, nat) heap)
         (Some 0)
         = Run
       \<lparr>arrays = [[Some (\<lambda>c w r s. Inr (c, s + 1)), Some (\<lambda>c w r s. Inr (c, s + 10))]],
        objs = [\<lparr>fns = \<lparr>arr = 0, off = 0, len = 2, cap = 2\<rparr>\<rparr>]\<rparr>
           (Some 0)
   \<and> Run
       (\<lparr>arrays = [[Some (\<lambda>c w r s. Inr (c, s + 1)), Some (\<lambda>c w r s. Inr (c, s + 10)), None, None],
                   [Some (\<lambda>c w r s. Inr (c, s + 10))]],
         objs = [\<lparr>fns = \<lparr>arr = 0, off = 0, len = 2, cap = 4\<rparr>\<rparr>]\<rparr> :: (unit, unit, nat) heap)
         (Some 0) (Some (Ctx [] None)) () () (0::nat)
         = Inr 11
   \<and> deref
       (\<lparr>arrays = [[Some (\<lambda>c w r s. Inr (c, s + 1)), Some (\<lambda>c w r s. Inr (c, s + 10)), None, None],
                   [Some (\<lambda>c w r s. Inr (c, s + 10))]],
         objs = [\<lparr>fns = \<lparr>arr = 0, off = 0, len = 2, cap = 4\<rparr>\<rparr>]\<rparr> :: (unit, unit, nat) heap)
         (Some 0)
         = Some \<lparr>fns = \<lparr>arr = 0, off = 0, len = 2, cap = 4\<rparr>\<rparr>
   \<and> deref
       (\<lparr>arrays = [[Some (\<lambda>c w r s. Inr (c, s + 1)), Some (\<lambda>c w r s. Inr (c, s + 10)), None, None],
                   [Some (\<lambda>c w r s. Inr (c, s + 10))]],
         objs = [\<lparr>fns = \<lparr>arr = 0, off = 0, len = 2, cap = 4\<rparr>\<rparr>,
                 \<lparr>fns = \<lparr>arr = 1, off = 0, len = 1, cap = 1\<rparr>\<rparr>]\<rparr> :: (unit, unit, nat) heap)
         (Some 0)
         = Some \<lparr>fns = \<lparr>arr = 0, off = 0, len = 2, cap = 4\<rparr>\<rparr>
   \<and> arrays
       (\<lparr>arrays = [[Some (\<lambda>c w r s. Inr (c, s + 1)), Some (\<lambda>c w r s. Inr (c, s + 10)), None, None],
                   [Some (\<lambda>c w r s. Inr (c, s + 10))]],
         objs = [\<lparr>fns = \<lparr>arr = 0, off = 0, len = 2, cap = 4\<rparr>\<rparr>,
                 \<lparr>fns = \<lparr>arr = 1, off = 0, len = 1, cap = 1\<rparr>\<rparr>]\<rparr> :: (unit, unit, nat) heap)
         ! arr (fns \<lparr>fns = \<lparr>arr = 0, off = 0, len = 2, cap = 4\<rparr>\<rparr>)
         = arrays
       \<lparr>arrays = [[Some (\<lambda>c w r s. Inr (c, s + 1)), Some (\<lambda>c w r s. Inr (c, s + 10)), None, None],
                  [Some (\<lambda>c w r s. Inr (c, s + 10))]],
        objs = [\<lparr>fns = \<lparr>arr = 0, off = 0, len = 2, cap = 4\<rparr>\<rparr>]\<rparr>
           ! arr (fns \<lparr>fns = \<lparr>arr = 0, off = 0, len = 2, cap = 4\<rparr>\<rparr>)
   \<and> steps
       (\<lparr>arrays = [[Some (\<lambda>c w r s. Inr (c, s + 1)), Some (\<lambda>c w r s. Inr (c, s + 10)), None, None],
                   [Some (\<lambda>c w r s. Inr (c, s + 10))]],
         objs = [\<lparr>fns = \<lparr>arr = 0, off = 0, len = 2, cap = 4\<rparr>\<rparr>,
                 \<lparr>fns = \<lparr>arr = 1, off = 0, len = 1, cap = 1\<rparr>\<rparr>]\<rparr> :: (unit, unit, nat) heap)
         (Some 0)
         = Some [Some (\<lambda>c w r s. Inr (c, s + 1)), Some (\<lambda>c w r s. Inr (c, s + 10))]
   \<and> wf_chain
       (\<lparr>arrays = [[Some (\<lambda>c w r s. Inr (c, s + 1)), Some (\<lambda>c w r s. Inr (c, s + 10)), None, None],
                   [Some (\<lambda>c w r s. Inr (c, s + 10))]],
         objs = [\<lparr>fns = \<lparr>arr = 0, off = 0, len = 2, cap = 4\<rparr>\<rparr>]\<rparr> :: (unit, unit, nat) heap)
         (Some 0)
   \<and> len \<lparr>arr = 0, off = 0, len = 0, cap = 0\<rparr> = 0
   \<and> Add (\<lambda>c n. 2 * n)
       (\<lparr>arrays = [[Some (\<lambda>c w r s. Inr (c, s + 1)), Some (\<lambda>c w r s. Inr (c, s + 10)), None, None],
                   [Some (\<lambda>c w r s. Inr (c, s + 10))]],
         objs = [\<lparr>fns = \<lparr>arr = 0, off = 0, len = 2, cap = 4\<rparr>\<rparr>]\<rparr> :: (unit, unit, nat) heap)
         (Some 0) \<lparr>arr = 0, off = 0, len = 0, cap = 0\<rparr>
         = Inr
       \<lparr>arrays = [[Some (\<lambda>c w r s. Inr (c, s + 1)), Some (\<lambda>c w r s. Inr (c, s + 10)), None, None],
                  [Some (\<lambda>c w r s. Inr (c, s + 10))]],
        objs = [\<lparr>fns = \<lparr>arr = 0, off = 0, len = 2, cap = 4\<rparr>\<rparr>]\<rparr>
   \<and> wf_slice
       (\<lparr>arrays = [[Some (\<lambda>c w r s. Inr (c, s + 1)), Some (\<lambda>c w r s. Inr (c, s + 10)), None, None],
                   [Some (\<lambda>c w r s. Inr (c, s + 10))]],
         objs = [\<lparr>fns = \<lparr>arr = 0, off = 0, len = 2, cap = 4\<rparr>\<rparr>]\<rparr> :: (unit, unit, nat) heap)
         \<lparr>arr = 1, off = 0, len = 1, cap = 1\<rparr>
   \<and> (\<exists>H'. Add (\<lambda>c n. 2 * n)
       (\<lparr>arrays = [[Some (\<lambda>c w r s. Inr (c, s + 1)), Some (\<lambda>c w r s. Inr (c, s + 10)), None, None],
                   [Some (\<lambda>c w r s. Inr (c, s + 10))]],
         objs = [\<lparr>fns = \<lparr>arr = 0, off = 0, len = 2, cap = 4\<rparr>\<rparr>]\<rparr> :: (unit, unit, nat) heap)
         (Some 0) \<lparr>arr = 1, off = 0, len = 1, cap = 1\<rparr> = Inr H'
         \<and> steps H' (Some 0)
             = Some ([Some (\<lambda>c w r s. Inr (c, s + 1)), Some (\<lambda>c w r s. Inr (c, s + 10))]
                @ elems
       \<lparr>arrays = [[Some (\<lambda>c w r s. Inr (c, s + 1)), Some (\<lambda>c w r s. Inr (c, s + 10)), None, None],
                  [Some (\<lambda>c w r s. Inr (c, s + 10))]],
        objs = [\<lparr>fns = \<lparr>arr = 0, off = 0, len = 2, cap = 4\<rparr>\<rparr>]\<rparr>
                  \<lparr>arr = 1, off = 0, len = 1, cap = 1\<rparr>))"
proof -
  let ?A = "Some (\<lambda>c w r s. Inr (c, s + 1)) :: (unit, unit, nat) Middleware"
  let ?B = "Some (\<lambda>c w r s. Inr (c, s + 10)) :: (unit, unit, nat) Middleware"
  let ?fs = "\<lparr>arr = 0, off = 0, len = 1, cap = 4\<rparr>"
  let ?gs = "\<lparr>arr = 1, off = 0, len = 1, cap = 1\<rparr>"
  let ?t = "\<lparr>arr = 0, off = 0, len = 2, cap = 2\<rparr>"
  let ?nil = "\<lparr>arr = 0, off = 0, len = 0, cap = 0\<rparr>"
  let ?Qv = "\<lparr>fns = \<lparr>arr = 0, off = 0, len = 2, cap = 4\<rparr>\<rparr>"
  let ?H = "\<lparr>arrays = [[?A, None, None, None], [?B]], objs = []\<rparr>"
  let ?H1 = "\<lparr>arrays = [[?A, None, None, None], [?B]], objs = [\<lparr>fns = ?fs\<rparr>]\<rparr>"
  let ?H2 = "\<lparr>arrays = [[?A, ?B, None, None], [?B]], objs = [?Qv]\<rparr>"
  let ?H3 = "\<lparr>arrays = [[?A, ?B, None, None], [?B]], objs = [?Qv, \<lparr>fns = ?gs\<rparr>]\<rparr>"
  let ?K = "\<lparr>arrays = [], objs = []\<rparr> :: (unit, unit, nat) heap"
  let ?K1 = "\<lparr>arrays = [[?A, ?B]], objs = []\<rparr>"
  let ?K2 = "\<lparr>arrays = [[?A, ?B]], objs = [\<lparr>fns = ?t\<rparr>]\<rparr>"
  let ?g = "(\<lambda>c n. 2 * n) :: nat \<Rightarrow> nat \<Rightarrow> nat"
  have h1: "New ?H ?fs = (Some 0, ?H1)"
    by (simp add: New_def)
  have h2: "wf_slice ?H ?fs" and h3: "wf_slice ?H ?gs"
    by (simp_all add: wf_slice_def)
  have h4: "variadic ?K (elems ?H ?fs @ elems ?H ?gs) = (?t, ?K1)"
    by (simp add: variadic_def elems_def)
  have h5: "New ?K1 ?t = (Some 0, ?K2)"
    by (simp add: New_def)
  have e: "elems ?H ?fs @ elems ?H ?gs = [?A, ?B]"
    by (simp add: elems_def)
  have a: "Add ?g ?H1 (Some 0) ?gs = Inr ?H2"
    by (simp add: Add_def append_slice_def elems_def Let_def)
  have d2: "deref ?H2 (Some 0) = Some ?Qv" and d3: "deref ?H3 (Some 0) = Some ?Qv"
    and ar: "arrays ?H3 ! arr (fns ?Qv) = arrays ?H2 ! arr (fns ?Qv)"
    by (simp_all add: deref_def)
  have w: "wf_chain ?H2 (Some 0)" and z: "len ?nil = 0" and wg: "wf_slice ?H2 ?gs"
    and s2: "steps ?H2 (Some 0) = Some [?A, ?B]"
    by (simp_all add: wf_chain_def wf_slice_def deref_def steps_def elems_def)
  note t = add_is_construction [where grow = ?g and ?H0.0 = ?H2 and ?q0.0 = "Some 0"
      and ?g0.0 = ?nil and ?g1.0 = ?gs and xs = "[?A, ?B]", OF h1 h2 h3 h4 h5]
  from t obtain X where x: "Add ?g ?H1 (Some 0) ?gs = Inr X"
    and r: "steps X (Some 0) = Some (elems ?H ?fs @ elems ?H ?gs)"
      "steps ?K2 (Some 0) = Some (elems ?H ?fs @ elems ?H ?gs)"
      "Run X (Some 0) = Run ?K2 (Some 0)"
    and f: "\<forall>H3 Qv. deref X (Some 0) = Some Qv \<and> deref H3 (Some 0) = Some Qv
        \<and> arrays H3 ! arr (fns Qv) = arrays X ! arr (fns Qv)
        \<longrightarrow> steps H3 (Some 0) = Some (elems ?H ?fs @ elems ?H ?gs)
          \<and> Run H3 (Some 0) = Run ?K2 (Some 0)"
    by blast
  have X: "X = ?H2"
    using x a by simp
  have c1: "steps ?H2 (Some 0) = Some [?A, ?B]" and c2: "steps ?K2 (Some 0) = Some [?A, ?B]"
    and c3: "Run ?H2 (Some 0) = Run ?K2 (Some 0)"
    using r e unfolding X by simp_all
  have c4: "steps ?H3 (Some 0) = Some [?A, ?B]"
    using f [unfolded X] d2 d3 ar e by metis
  have c5: "Add ?g ?H2 (Some 0) ?nil = Inr ?H2"
    using t w z by blast
  have c6: "\<exists>H'. Add ?g ?H2 (Some 0) ?gs = Inr H'
      \<and> steps H' (Some 0) = Some ([?A, ?B] @ elems ?H2 ?gs)"
    using t s2 w wg by blast
  have c7: "Run ?H2 (Some 0) (Some (Ctx [] None)) () () 0 = Inr 11"
    using Run_reads [OF c1, of "Some (Ctx [] None)" "()" "()" 0]
    by (simp add: chain_Cons chain_Nil)
  show ?thesis
    by (intro conjI h1 h2 h3 h4 h5 a c1 c2 c3 c7 d2 d3 ar c4 w z c5 wg c6)
qed

theorem add_shares_the_slice_counterexample:
  "New
       (\<lparr>arrays = [[Some (\<lambda>c w r s. Inr (c, s + 1)), None, None, None],
                   [Some (\<lambda>c w r s. Inr (c, s + 10))],
                   [Some (\<lambda>c w r s. Inr (c, s + 100))]],
         objs = []\<rparr> :: (unit, unit, nat) heap)
         \<lparr>arr = 0, off = 0, len = 1, cap = 4\<rparr>
         = (Some 0,
       \<lparr>arrays = [[Some (\<lambda>c w r s. Inr (c, s + 1)), None, None, None],
                  [Some (\<lambda>c w r s. Inr (c, s + 10))],
                  [Some (\<lambda>c w r s. Inr (c, s + 100))]],
        objs = [\<lparr>fns = \<lparr>arr = 0, off = 0, len = 1, cap = 4\<rparr>\<rparr>]\<rparr>)
   \<and> Add (\<lambda>c n. 2 * n)
       (\<lparr>arrays = [[Some (\<lambda>c w r s. Inr (c, s + 1)), None, None, None],
                   [Some (\<lambda>c w r s. Inr (c, s + 10))],
                   [Some (\<lambda>c w r s. Inr (c, s + 100))]],
         objs = [\<lparr>fns = \<lparr>arr = 0, off = 0, len = 1, cap = 4\<rparr>\<rparr>]\<rparr> :: (unit, unit, nat) heap)
         (Some 0) \<lparr>arr = 1, off = 0, len = 1, cap = 1\<rparr>
         = Inr
       \<lparr>arrays = [[Some (\<lambda>c w r s. Inr (c, s + 1)), Some (\<lambda>c w r s. Inr (c, s + 10)), None, None],
                  [Some (\<lambda>c w r s. Inr (c, s + 10))],
                  [Some (\<lambda>c w r s. Inr (c, s + 100))]],
        objs = [\<lparr>fns = \<lparr>arr = 0, off = 0, len = 2, cap = 4\<rparr>\<rparr>]\<rparr>
   \<and> Run
       (\<lparr>arrays = [[Some (\<lambda>c w r s. Inr (c, s + 1)), Some (\<lambda>c w r s. Inr (c, s + 10)), None, None],
                   [Some (\<lambda>c w r s. Inr (c, s + 10))],
                   [Some (\<lambda>c w r s. Inr (c, s + 100))]],
         objs = [\<lparr>fns = \<lparr>arr = 0, off = 0, len = 2, cap = 4\<rparr>\<rparr>]\<rparr> :: (unit, unit, nat) heap)
         (Some 0) (Some (Ctx [] None)) () () (0::nat)
         = Inr 11
   \<and> New
       (\<lparr>arrays = [[Some (\<lambda>c w r s. Inr (c, s + 1)), Some (\<lambda>c w r s. Inr (c, s + 10)), None, None],
                   [Some (\<lambda>c w r s. Inr (c, s + 10))],
                   [Some (\<lambda>c w r s. Inr (c, s + 100))]],
         objs = [\<lparr>fns = \<lparr>arr = 0, off = 0, len = 2, cap = 4\<rparr>\<rparr>]\<rparr> :: (unit, unit, nat) heap)
         \<lparr>arr = 0, off = 0, len = 1, cap = 4\<rparr>
         = (Some 1,
       \<lparr>arrays = [[Some (\<lambda>c w r s. Inr (c, s + 1)), Some (\<lambda>c w r s. Inr (c, s + 10)), None, None],
                  [Some (\<lambda>c w r s. Inr (c, s + 10))],
                  [Some (\<lambda>c w r s. Inr (c, s + 100))]],
        objs = [\<lparr>fns = \<lparr>arr = 0, off = 0, len = 2, cap = 4\<rparr>\<rparr>,
                \<lparr>fns = \<lparr>arr = 0, off = 0, len = 1, cap = 4\<rparr>\<rparr>]\<rparr>)
   \<and> Add (\<lambda>c n. 2 * n)
       (\<lparr>arrays = [[Some (\<lambda>c w r s. Inr (c, s + 1)), Some (\<lambda>c w r s. Inr (c, s + 10)), None, None],
                   [Some (\<lambda>c w r s. Inr (c, s + 10))],
                   [Some (\<lambda>c w r s. Inr (c, s + 100))]],
         objs = [\<lparr>fns = \<lparr>arr = 0, off = 0, len = 2, cap = 4\<rparr>\<rparr>,
                 \<lparr>fns = \<lparr>arr = 0, off = 0, len = 1, cap = 4\<rparr>\<rparr>]\<rparr> :: (unit, unit, nat) heap)
         (Some 1) \<lparr>arr = 2, off = 0, len = 1, cap = 1\<rparr>
         = Inr
       \<lparr>arrays = [[Some (\<lambda>c w r s. Inr (c, s + 1)), Some (\<lambda>c w r s. Inr (c, s + 100)), None, None],
                  [Some (\<lambda>c w r s. Inr (c, s + 10))],
                  [Some (\<lambda>c w r s. Inr (c, s + 100))]],
        objs = [\<lparr>fns = \<lparr>arr = 0, off = 0, len = 2, cap = 4\<rparr>\<rparr>,
                \<lparr>fns = \<lparr>arr = 0, off = 0, len = 2, cap = 4\<rparr>\<rparr>]\<rparr>
   \<and> variadic
       (\<lparr>arrays = [[Some (\<lambda>c w r s. Inr (c, s + 1)), Some (\<lambda>c w r s. Inr (c, s + 100)), None, None],
                   [Some (\<lambda>c w r s. Inr (c, s + 10))],
                   [Some (\<lambda>c w r s. Inr (c, s + 100))]],
         objs = [\<lparr>fns = \<lparr>arr = 0, off = 0, len = 2, cap = 4\<rparr>\<rparr>,
                 \<lparr>fns = \<lparr>arr = 0, off = 0, len = 2, cap = 4\<rparr>\<rparr>]\<rparr> :: (unit, unit, nat) heap)
         [Some (\<lambda>c w r s. Inr (c, s + 1)), Some (\<lambda>c w r s. Inr (c, s + 10))]
         = (\<lparr>arr = 3, off = 0, len = 2, cap = 2\<rparr>,
       \<lparr>arrays = [[Some (\<lambda>c w r s. Inr (c, s + 1)), Some (\<lambda>c w r s. Inr (c, s + 100)), None, None],
                  [Some (\<lambda>c w r s. Inr (c, s + 10))],
                  [Some (\<lambda>c w r s. Inr (c, s + 100))],
                  [Some (\<lambda>c w r s. Inr (c, s + 1)), Some (\<lambda>c w r s. Inr (c, s + 10))]],
        objs = [\<lparr>fns = \<lparr>arr = 0, off = 0, len = 2, cap = 4\<rparr>\<rparr>,
                \<lparr>fns = \<lparr>arr = 0, off = 0, len = 2, cap = 4\<rparr>\<rparr>]\<rparr>)
   \<and> New
       (\<lparr>arrays = [[Some (\<lambda>c w r s. Inr (c, s + 1)), Some (\<lambda>c w r s. Inr (c, s + 100)), None, None],
                   [Some (\<lambda>c w r s. Inr (c, s + 10))],
                   [Some (\<lambda>c w r s. Inr (c, s + 100))],
                   [Some (\<lambda>c w r s. Inr (c, s + 1)), Some (\<lambda>c w r s. Inr (c, s + 10))]],
         objs = [\<lparr>fns = \<lparr>arr = 0, off = 0, len = 2, cap = 4\<rparr>\<rparr>,
                 \<lparr>fns = \<lparr>arr = 0, off = 0, len = 2, cap = 4\<rparr>\<rparr>]\<rparr> :: (unit, unit, nat) heap)
         \<lparr>arr = 3, off = 0, len = 2, cap = 2\<rparr>
         = (Some 2,
       \<lparr>arrays = [[Some (\<lambda>c w r s. Inr (c, s + 1)), Some (\<lambda>c w r s. Inr (c, s + 100)), None, None],
                  [Some (\<lambda>c w r s. Inr (c, s + 10))],
                  [Some (\<lambda>c w r s. Inr (c, s + 100))],
                  [Some (\<lambda>c w r s. Inr (c, s + 1)), Some (\<lambda>c w r s. Inr (c, s + 10))]],
        objs = [\<lparr>fns = \<lparr>arr = 0, off = 0, len = 2, cap = 4\<rparr>\<rparr>,
                \<lparr>fns = \<lparr>arr = 0, off = 0, len = 2, cap = 4\<rparr>\<rparr>,
                \<lparr>fns = \<lparr>arr = 3, off = 0, len = 2, cap = 2\<rparr>\<rparr>]\<rparr>)
   \<and> Run
       (\<lparr>arrays = [[Some (\<lambda>c w r s. Inr (c, s + 1)), Some (\<lambda>c w r s. Inr (c, s + 100)), None, None],
                   [Some (\<lambda>c w r s. Inr (c, s + 10))],
                   [Some (\<lambda>c w r s. Inr (c, s + 100))],
                   [Some (\<lambda>c w r s. Inr (c, s + 1)), Some (\<lambda>c w r s. Inr (c, s + 10))]],
         objs = [\<lparr>fns = \<lparr>arr = 0, off = 0, len = 2, cap = 4\<rparr>\<rparr>,
                 \<lparr>fns = \<lparr>arr = 0, off = 0, len = 2, cap = 4\<rparr>\<rparr>,
                 \<lparr>fns = \<lparr>arr = 3, off = 0, len = 2, cap = 2\<rparr>\<rparr>]\<rparr> :: (unit, unit, nat) heap)
         (Some 2) (Some (Ctx [] None)) () () (0::nat)
         = Inr 11
   \<and> Run
       (\<lparr>arrays = [[Some (\<lambda>c w r s. Inr (c, s + 1)), Some (\<lambda>c w r s. Inr (c, s + 100)), None, None],
                   [Some (\<lambda>c w r s. Inr (c, s + 10))],
                   [Some (\<lambda>c w r s. Inr (c, s + 100))],
                   [Some (\<lambda>c w r s. Inr (c, s + 1)), Some (\<lambda>c w r s. Inr (c, s + 10))]],
         objs = [\<lparr>fns = \<lparr>arr = 0, off = 0, len = 2, cap = 4\<rparr>\<rparr>,
                 \<lparr>fns = \<lparr>arr = 0, off = 0, len = 2, cap = 4\<rparr>\<rparr>,
                 \<lparr>fns = \<lparr>arr = 3, off = 0, len = 2, cap = 2\<rparr>\<rparr>]\<rparr> :: (unit, unit, nat) heap)
         (Some 0) (Some (Ctx [] None)) () () (0::nat)
         = Inr 101
   \<and> Run
       (\<lparr>arrays = [[Some (\<lambda>c w r s. Inr (c, s + 1)), Some (\<lambda>c w r s. Inr (c, s + 100)), None, None],
                   [Some (\<lambda>c w r s. Inr (c, s + 10))],
                   [Some (\<lambda>c w r s. Inr (c, s + 100))],
                   [Some (\<lambda>c w r s. Inr (c, s + 1)), Some (\<lambda>c w r s. Inr (c, s + 10))]],
         objs = [\<lparr>fns = \<lparr>arr = 0, off = 0, len = 2, cap = 4\<rparr>\<rparr>,
                 \<lparr>fns = \<lparr>arr = 0, off = 0, len = 2, cap = 4\<rparr>\<rparr>,
                 \<lparr>fns = \<lparr>arr = 3, off = 0, len = 2, cap = 2\<rparr>\<rparr>]\<rparr> :: (unit, unit, nat) heap)
         (Some 0) (Some (Ctx [] None)) () () (0::nat)
         \<noteq> Run
       \<lparr>arrays = [[Some (\<lambda>c w r s. Inr (c, s + 1)), Some (\<lambda>c w r s. Inr (c, s + 100)), None, None],
                  [Some (\<lambda>c w r s. Inr (c, s + 10))],
                  [Some (\<lambda>c w r s. Inr (c, s + 100))],
                  [Some (\<lambda>c w r s. Inr (c, s + 1)), Some (\<lambda>c w r s. Inr (c, s + 10))]],
        objs = [\<lparr>fns = \<lparr>arr = 0, off = 0, len = 2, cap = 4\<rparr>\<rparr>,
                \<lparr>fns = \<lparr>arr = 0, off = 0, len = 2, cap = 4\<rparr>\<rparr>,
                \<lparr>fns = \<lparr>arr = 3, off = 0, len = 2, cap = 2\<rparr>\<rparr>]\<rparr>
           (Some 2) (Some (Ctx [] None)) () () (0::nat)"
  by (simp add: New_def Add_def append_slice_def variadic_def elems_def Let_def Run_def
      deref_def chain_Cons chain_Nil)

text \<open>
  C8. For every chain \<open>q\<close>, in every heap, and every function \<open>f\<close>, the handler object
  that \<^verbatim>\<open>Handle\<close> returns for a \<^verbatim>\<open>Handler\<close> whose \<^verbatim>\<open>ServeHTTP\<close> is \<open>f\<close>
  serves every writer, request and state exactly as the closure that \<^verbatim>\<open>Then\<close>
  returns for \<open>f\<close>; a nil terminal unit panics in both, and so does a nil chain.
\<close>

theorem handle_agrees_with_then:
  "serve nc (Handle H q (Some (Handler f))) H1 w r s = invoke (Then nc H q (Some f)) H2 w r s
   \<and> serve nc (Handle H q None) H1 w r s = invoke (Then nc H q None) H2 w r s"
proof (cases "deref H q")
  case None
  then show ?thesis
    by (simp add: Handle_def Then_def)
next
  case (Some Qv)
  have "call_ServeHTTP (Some (Handler f)) = call_fn (Some f)"
    by (intro ext) simp
  moreover have "call_ServeHTTP (None :: ('a, 'b, 'c) Handler option) = call_fn None"
    by (intro ext) simp
  ultimately show ?thesis
    using Some
    by (simp add: handler_ServeHTTP_def Handle_def Then_def split: sum.splits prod.splits)
qed

lemma then_nested:
  assumes "a (nc r) w r s = Inr (nc r, s1)"
    and qab: "steps H qab = Some [Some a, b]" and qa: "steps H qa = Some [Some a]"
    and qb: "steps H qb = Some [b]"
  shows "invoke (Then nc H qab fn) H1 w r s
    = invoke (Then nc H qa (Some (drop_context (invoke (Then nc H qb fn) H2)))) H3 w r s"
  using assms(1)
  by (simp add: Then_reads [OF qab] Then_reads [OF qa] Then_reads [OF qb] chain_Cons chain_Nil
      drop_context_def split: sum.splits prod.splits)

text \<open>
  C7 (corrected). The closure returned by \<^verbatim>\<open>Then\<close> takes no Context and derives a
  fresh one from the request, so as the terminal unit of another chain it does not
  receive the Context that the outer chain produced. \<open>Chain([a,b]).then(c)\<close> and
  \<open>Chain([a]).then(Chain([b]).then(c))\<close> behave identically whenever no middleware
  signals failure and \<open>a\<close> returns the freshly derived Context unchanged: both then run
  \<open>c\<close> on the Context that \<open>b\<close> returns. When \<open>a\<close> changes the Context they differ, as
  the counterexample shows.
\<close>

theorem then_is_associative:
  assumes "nc r = Some c0"
    and "a (Some c0) w r s = Inr (Some c0, s1)" and "err c0 = None"
    and "b (Some c0) w r s1 = Inr (Some cb, s2)" and "err cb = None"
    and qab: "steps H qab = Some [Some a, Some b]" and qa: "steps H qa = Some [Some a]"
    and qb: "steps H qb = Some [Some b]"
  shows "invoke (Then nc H qab (Some c)) H1 w r s
      = invoke (Then nc H qa (Some (drop_context (invoke (Then nc H qb (Some c)) H2)))) H3 w r s
    \<and> invoke (Then nc H qab (Some c)) H1 w r s = c (Some cb) w r s2"
proof -
  have "a (nc r) w r s = Inr (nc r, s1)"
    using assms(1,2) by simp
  then have "invoke (Then nc H qab (Some c)) H1 w r s
      = invoke (Then nc H qa (Some (drop_context (invoke (Then nc H qb (Some c)) H2)))) H3 w r s"
    using qab qa qb by (rule then_nested)
  moreover have "invoke (Then nc H qab (Some c)) H1 w r s = c (Some cb) w r s2"
    using assms(1-5) by (simp add: Then_reads [OF qab] chain_Cons chain_Nil)
  ultimately show ?thesis by simp
qed

theorem then_is_associative_witness:
  "(\<lambda>r. Some (Ctx [] None)) () = Some (Ctx [] None)
   \<and> (\<lambda>c w r s. Inr (c, s + 1)) (Some (Ctx [] None)) () () (0::nat)
         = (Inr (Some (Ctx [] None), 1) :: (fault \<times> nat) + (Context \<times> nat))
   \<and> err (Ctx [] None) = None
   \<and> (\<lambda>c w r s. Inr (Some (Ctx [(''y'', 2)] None), s + 10)) (Some (Ctx [] None)) () () (1::nat)
         = (Inr (Some (Ctx [(''y'', 2)] None), 11) :: (fault \<times> nat) + (Context \<times> nat))
   \<and> err (Ctx [(''y'', 2)] None) = None
   \<and> steps
       (\<lparr>arrays = [[Some (\<lambda>c w r s. Inr (c, s + 1)), Some (\<lambda>c w r s. Inr (Some (Ctx [(''y'', 2)] None), s + 10))],
                   [Some (\<lambda>c w r s. Inr (c, s + 1))],
                   [Some (\<lambda>c w r s. Inr (Some (Ctx [(''y'', 2)] None), s + 10))]],
         objs = [\<lparr>fns = \<lparr>arr = 0, off = 0, len = 2, cap = 2\<rparr>\<rparr>,
                 \<lparr>fns = \<lparr>arr = 1, off = 0, len = 1, cap = 1\<rparr>\<rparr>,
                 \<lparr>fns = \<lparr>arr = 2, off = 0, len = 1, cap = 1\<rparr>\<rparr>]\<rparr> :: (unit, unit, nat) heap)
         (Some 0)
         = Some [Some (\<lambda>c w r s. Inr (c, s + 1)),
                 Some (\<lambda>c w r s. Inr (Some (Ctx [(''y'', 2)] None), s + 10))]
   \<and> steps
       (\<lparr>arrays = [[Some (\<lambda>c w r s. Inr (c, s + 1)), Some (\<lambda>c w r s. Inr (Some (Ctx [(''y'', 2)] None), s + 10))],
                   [Some (\<lambda>c w r s. Inr (c, s + 1))],
                   [Some (\<lambda>c w r s. Inr (Some (Ctx [(''y'', 2)] None), s + 10))]],
         objs = [\<lparr>fns = \<lparr>arr = 0, off = 0, len = 2, cap = 2\<rparr>\<rparr>,
                 \<lparr>fns = \<lparr>arr = 1, off = 0, len = 1, cap = 1\<rparr>\<rparr>,
                 \<lparr>fns = \<lparr>arr = 2, off = 0, len = 1, cap = 1\<rparr>\<rparr>]\<rparr> :: (unit, unit, nat) heap)
         (Some 1)
         = Some [Some (\<lambda>c w r s. Inr (c, s + 1))]
   \<and> steps
       (\<lparr>arrays = [[Some (\<lambda>c w r s. Inr (c, s + 1)), Some (\<lambda>c w r s. Inr (Some (Ctx [(''y'', 2)] None), s + 10))],
                   [Some (\<lambda>c w r s. Inr (c, s + 1))],
                   [Some (\<lambda>c w r s. Inr (Some (Ctx [(''y'', 2)] None), s + 10))]],
         objs = [\<lparr>fns = \<lparr>arr = 0, off = 0, len = 2, cap = 2\<rparr>\<rparr>,
                 \<lparr>fns = \<lparr>arr = 1, off = 0, len = 1, cap = 1\<rparr>\<rparr>,
                 \<lparr>fns = \<lparr>arr = 2, off = 0, len = 1, cap = 1\<rparr>\<rparr>]\<rparr> :: (unit, unit, nat) heap)
         (Some 2)
         = Some [Some (\<lambda>c w r s. Inr (Some (Ctx [(''y'', 2)] None), s + 10))]
   \<and> invoke
         (Then (\<lambda>r. Some (Ctx [] None))
            (\<lparr>arrays = [[Some (\<lambda>c w r s. Inr (c, s + 1)), Some (\<lambda>c w r s. Inr (Some (Ctx [(''y'', 2)] None), s + 10))],
                        [Some (\<lambda>c w r s. Inr (c, s + 1))],
                        [Some (\<lambda>c w r s. Inr (Some (Ctx [(''y'', 2)] None), s + 10))]],
              objs = [\<lparr>fns = \<lparr>arr = 0, off = 0, len = 2, cap = 2\<rparr>\<rparr>,
                      \<lparr>fns = \<lparr>arr = 1, off = 0, len = 1, cap = 1\<rparr>\<rparr>,
                      \<lparr>fns = \<lparr>arr = 2, off = 0, len = 1, cap = 1\<rparr>\<rparr>]\<rparr> :: (unit, unit, nat) heap)
            (Some 0)
              (Some (\<lambda>c w r s. Inr (s + (case c of None \<Rightarrow> 0 | Some x \<Rightarrow> 100 * length (vals x))))))
         \<lparr>arrays = [], objs = []\<rparr> () () (0::nat)
         = invoke
             (Then (\<lambda>r. Some (Ctx [] None))
                (\<lparr>arrays = [[Some (\<lambda>c w r s. Inr (c, s + 1)), Some (\<lambda>c w r s. Inr (Some (Ctx [(''y'', 2)] None), s + 10))],
                            [Some (\<lambda>c w r s. Inr (c, s + 1))],
                            [Some (\<lambda>c w r s. Inr (Some (Ctx [(''y'', 2)] None), s + 10))]],
                  objs = [\<lparr>fns = \<lparr>arr = 0, off = 0, len = 2, cap = 2\<rparr>\<rparr>,
                          \<lparr>fns = \<lparr>arr = 1, off = 0, len = 1, cap = 1\<rparr>\<rparr>,
                          \<lparr>fns = \<lparr>arr = 2, off = 0, len = 1, cap = 1\<rparr>\<rparr>]\<rparr> :: (unit, unit, nat) heap)
                (Some 1)
                    (Some (drop_context (invoke
                       (Then (\<lambda>r. Some (Ctx [] None))
                          (\<lparr>arrays = [[Some (\<lambda>c w r s. Inr (c, s + 1)), Some (\<lambda>c w r s. Inr (Some (Ctx [(''y'', 2)] None), s + 10))],
                                      [Some (\<lambda>c w r s. Inr (c, s + 1))],
                                      [Some (\<lambda>c w r s. Inr (Some (Ctx [(''y'', 2)] None), s + 10))]],
                            objs = [\<lparr>fns = \<lparr>arr = 0, off = 0, len = 2, cap = 2\<rparr>\<rparr>,
                                    \<lparr>fns = \<lparr>arr = 1, off = 0, len = 1, cap = 1\<rparr>\<rparr>,
                                    \<lparr>fns = \<lparr>arr = 2, off = 0, len = 1, cap = 1\<rparr>\<rparr>]\<rparr> :: (unit, unit, nat) heap)
                          (Some 2)
                            (Some (\<lambda>c w r s. Inr (s + (case c of None \<Rightarrow> 0 | Some x \<Rightarrow> 100 * length (vals x))))))
                       \<lparr>arrays = [], objs = []\<rparr>))))
             \<lparr>arrays = [], objs = []\<rparr> () () (0::nat)
   \<and> invoke
         (Then (\<lambda>r. Some (Ctx [] None))
            (\<lparr>arrays = [[Some (\<lambda>c w r s. Inr (c, s + 1)), Some (\<lambda>c w r s. Inr (Some (Ctx [(''y'', 2)] None), s + 10))],
                        [Some (\<lambda>c w r s. Inr (c, s + 1))],
                        [Some (\<lambda>c w r s. Inr (Some (Ctx [(''y'', 2)] None), s + 10))]],
              objs = [\<lparr>fns = \<lparr>arr = 0, off = 0, len = 2, cap = 2\<rparr>\<rparr>,
                      \<lparr>fns = \<lparr>arr = 1, off = 0, len = 1, cap = 1\<rparr>\<rparr>,
                      \<lparr>fns = \<lparr>arr = 2, off = 0, len = 1, cap = 1\<rparr>\<rparr>]\<rparr> :: (unit, unit, nat) heap)
            (Some 0)
              (Some (\<lambda>c w r s. Inr (s + (case c of None \<Rightarrow> 0 | Some x \<Rightarrow> 100 * length (vals x))))))
         \<lparr>arrays = [], objs = []\<rparr> () () (0::nat)
         = Inr 111"
proof -
  let ?nc = "\<lambda>r::unit. Some (Ctx [] None)"
  let ?a = "(\<lambda>c w r s. Inr (c, s + 1)) :: (unit, unit, nat) mwfun"
  let ?b = "(\<lambda>c w r s. Inr (Some (Ctx [(''y'', 2)] None), s + 10)) :: (unit, unit, nat) mwfun"
  let ?c = "(\<lambda>c w r s. Inr (s + (case c of None \<Rightarrow> 0 | Some x \<Rightarrow> 100 * length (vals x))))
    :: (unit, unit, nat) hfun"
  let ?H = "\<lparr>arrays = [[Some ?a, Some ?b], [Some ?a], [Some ?b]],
             objs = [\<lparr>fns = \<lparr>arr = 0, off = 0, len = 2, cap = 2\<rparr>\<rparr>,
                     \<lparr>fns = \<lparr>arr = 1, off = 0, len = 1, cap = 1\<rparr>\<rparr>,
                     \<lparr>fns = \<lparr>arr = 2, off = 0, len = 1, cap = 1\<rparr>\<rparr>]\<rparr>"
  let ?E = "\<lparr>arrays = [], objs = []\<rparr> :: (unit, unit, nat) heap"
  have h1: "?nc () = Some (Ctx [] None)"
    by simp
  have h2: "?a (Some (Ctx [] None)) () () 0 = Inr (Some (Ctx [] None), 1)"
    by simp
  have h3: "err (Ctx [] None) = None"
    by simp
  have h4: "?b (Some (Ctx [] None)) () () 1 = Inr (Some (Ctx [(''y'', 2)] None), 11)"
    by simp
  have h5: "err (Ctx [(''y'', 2)] None) = None"
    by simp
  have h6: "steps ?H (Some 0) = Some [Some ?a, Some ?b]"
    and h7: "steps ?H (Some 1) = Some [Some ?a]" and h8: "steps ?H (Some 2) = Some [Some ?b]"
    by (simp_all add: steps_def deref_def elems_def)
  note t = then_is_associative
      [where nc = ?nc and r = "()" and w = "()" and s = 0 and a = ?a and b = ?b and c = ?c
         and ?H1.0 = ?E and ?H2.0 = ?E and ?H3.0 = ?E,
       OF h1 h2 h3 h4 h5 h6 h7 h8]
  have t1: "invoke (Then ?nc ?H (Some 0) (Some ?c)) ?E () () 0
      = invoke (Then ?nc ?H (Some 1)
          (Some (drop_context (invoke (Then ?nc ?H (Some 2) (Some ?c)) ?E)))) ?E () () 0"
    using t by (rule conjunct1)
  have t2: "invoke (Then ?nc ?H (Some 0) (Some ?c)) ?E () () 0 = Inr 111"
    using t [THEN conjunct2] by simp
  show ?thesis
    using h1 h2 h3 h4 h5 h6 h7 h8 t1 t2 by blast
qed

theorem then_is_associative_counterexample:
  "invoke
         (Then (\<lambda>r. Some (Ctx [] None))
            (\<lparr>arrays = [[Some (\<lambda>c w r s. Inr (Some (Ctx [(''x'', 1)] None), s)), Some (\<lambda>c w r s. Inr (c, s))],
                        [Some (\<lambda>c w r s. Inr (Some (Ctx [(''x'', 1)] None), s))],
                        [Some (\<lambda>c w r s. Inr (c, s))]],
              objs = [\<lparr>fns = \<lparr>arr = 0, off = 0, len = 2, cap = 2\<rparr>\<rparr>,
                      \<lparr>fns = \<lparr>arr = 1, off = 0, len = 1, cap = 1\<rparr>\<rparr>,
                      \<lparr>fns = \<lparr>arr = 2, off = 0, len = 1, cap = 1\<rparr>\<rparr>]\<rparr> :: (unit, unit, nat) heap)
            (Some 0)
              (Some (\<lambda>c w r s. Inr (s + (case c of None \<Rightarrow> 0 | Some x \<Rightarrow> length (vals x))))))
         \<lparr>arrays = [], objs = []\<rparr> () () (0::nat)
         \<noteq> invoke
             (Then (\<lambda>r. Some (Ctx [] None))
                (\<lparr>arrays = [[Some (\<lambda>c w r s. Inr (Some (Ctx [(''x'', 1)] None), s)), Some (\<lambda>c w r s. Inr (c, s))],
                            [Some (\<lambda>c w r s. Inr (Some (Ctx [(''x'', 1)] None), s))],
                            [Some (\<lambda>c w r s. Inr (c, s))]],
                  objs = [\<lparr>fns = \<lparr>arr = 0, off = 0, len = 2, cap = 2\<rparr>\<rparr>,
                          \<lparr>fns = \<lparr>arr = 1, off = 0, len = 1, cap = 1\<rparr>\<rparr>,
                          \<lparr>fns = \<lparr>arr = 2, off = 0, len = 1, cap = 1\<rparr>\<rparr>]\<rparr> :: (unit, unit, nat) heap)
                (Some 1)
                    (Some (drop_context (invoke
                       (Then (\<lambda>r. Some (Ctx [] None))
                          (\<lparr>arrays = [[Some (\<lambda>c w r s. Inr (Some (Ctx [(''x'', 1)] None), s)), Some (\<lambda>c w r s. Inr (c, s))],
                                      [Some (\<lambda>c w r s. Inr (Some (Ctx [(''x'', 1)] None), s))],
                                      [Some (\<lambda>c w r s. Inr (c, s))]],
                            objs = [\<lparr>fns = \<lparr>arr = 0, off = 0, len = 2, cap = 2\<rparr>\<rparr>,
                                    \<lparr>fns = \<lparr>arr = 1, off = 0, len = 1, cap = 1\<rparr>\<rparr>,
                                    \<lparr>fns = \<lparr>arr = 2, off = 0, len = 1, cap = 1\<rparr>\<rparr>]\<rparr> :: (unit, unit, nat) heap)
                          (Some 2)
                            (Some (\<lambda>c w r s. Inr (s + (case c of None \<Rightarrow> 0 | Some x \<Rightarrow> length (vals x))))))
                       \<lparr>arrays = [], objs = []\<rparr>))))
             \<lparr>arrays = [], objs = []\<rparr> () () (0::nat)"
  by (simp add: Then_def deref_def elems_def chain_Cons chain_Nil drop_context_def)

lemma probes_trace_steps:
  "\<exists>j\<le>length ms. mw_trace (call_mw (chain (probes i ms)) c w r (tr, s))
     = tr @ map Step [i..<i + j]"
proof (induction ms arbitrary: i c tr s)
  case Nil
  show ?case by (simp add: chain_Nil)
next
  case (Cons m ms)
  show ?case
  proof (cases "m c w r s")
    case (Inl p)
    then have "mw_trace (call_mw (chain (probes i (m # ms))) c w r (tr, s))
        = tr @ map Step [i..<i + Suc 0]"
      by (cases p) (simp add: chain_Cons)
    then show ?thesis
      by (intro exI [of _ "Suc 0"]) simp
  next
    case (Inr q)
    obtain c1 s1 where q: "q = (c1, s1)"
      by (cases q)
    from Cons.IH [of "Suc i" c1 "tr @ [Step i]" s1] obtain j where j: "j \<le> length ms"
      and tr: "mw_trace (call_mw (chain (probes (Suc i) ms)) c1 w r (tr @ [Step i], s1))
         = (tr @ [Step i]) @ map Step [Suc i..<Suc i + j]"
      by blast
    have more: "(tr @ [Step i]) @ map Step [Suc i..<Suc i + j] = tr @ map Step [i..<i + Suc j]"
      by (simp add: upt_step del: upt_Suc)
    show ?thesis
    proof (cases "\<exists>x. c1 = Some x \<and> err x = None")
      case True
      then have "mw_trace (call_mw (chain (probes i (m # ms))) c w r (tr, s))
          = tr @ map Step [i..<i + Suc j]"
        using Inr q tr more by (auto simp: chain_Cons)
      then show ?thesis
        using j by (intro exI [of _ "Suc j"]) simp
    next
      case False
      then have "mw_trace (call_mw (chain (probes i (m # ms))) c w r (tr, s))
          = tr @ map Step [i..<i + Suc 0]"
        using Inr q by (cases c1) (auto simp: chain_Cons)
      then show ?thesis
        by (intro exI [of _ "Suc 0"]) simp
    qed
  qed
qed

lemma then_trace:
  assumes st: "steps H q = Some fs"
    and res: "call_mw (chain fs) (nc r) w r (tr, s) = res"
  shows "h_trace (invoke (Then nc H q (Some (probe_fn f))) H' w r (tr, s)) = mw_trace res
    \<or> h_trace (invoke (Then nc H q (Some (probe_fn f))) H' w r (tr, s))
        = mw_trace res @ [Terminal]"
proof (cases res)
  case (Inl p)
  obtain e tr1 s1 where p: "p = (e, tr1, s1)"
    by (cases p)
  show ?thesis
    by (simp add: Then_reads [OF st] res Inl p)
next
  case (Inr q)
  obtain c1 tr1 s1 where q: "q = (c1, tr1, s1)"
    by (cases q)
  show ?thesis
  proof (cases c1)
    case None
    then show ?thesis
      by (simp add: Then_reads [OF st] res Inr q)
  next
    case (Some x)
    show ?thesis
    proof (cases "err x")
      case None
      then show ?thesis
        by (simp add: Then_reads [OF st] res Inr q Some probe_fn_trace del: probe_fn.simps)
    next
      case (Some e)
      then show ?thesis
        by (simp add: Then_reads [OF st] res Inr q \<open>c1 = Some x\<close>)
    qed
  qed
qed

lemma then_trace_steps:
  assumes st: "steps H q = Some (probes 0 ms)"
  shows "\<exists>j t. j \<le> length ms \<and> (t = [] \<or> t = [Terminal])
     \<and> h_trace (invoke (Then nc H q (Some (probe_fn f))) H' w r ([], s))
         = map Step [0..<j] @ t"
proof -
  let ?res = "call_mw (chain (probes 0 ms)) (nc r) w r ([], s)"
  let ?h = "h_trace (invoke (Then nc H q (Some (probe_fn f))) H' w r ([], s))"
  from probes_trace_steps [of ms 0 "nc r" w r "[]" s] obtain j where j: "j \<le> length ms"
    and tr: "mw_trace ?res = map Step [0..<j]"
    by auto
  have "?h = mw_trace ?res \<or> ?h = mw_trace ?res @ [Terminal]"
    using st by (rule then_trace) (rule refl)
  then have "?h = map Step [0..<j] @ [] \<or> ?h = map Step [0..<j] @ [Terminal]"
    unfolding tr by simp
  then show ?thesis
    using j by blast
qed

lemma serve_as_invoke:
  "steps H q = Some fs \<Longrightarrow>
     serve nc (Handle H q (Some (Handler f))) H1 w r s = invoke (Then nc H q (Some f)) H2 w r s"
  by (simp add: Then_reads Handle_reads split: sum.splits prod.splits)

lemma Add_returns: "steps H q = Some fs \<Longrightarrow> \<exists>H'. Add grow H q gs = Inr H'"
  by (auto simp: steps_def deref_def Add_def split: option.splits if_splits prod.splits)

text \<open>
  C9. \<^verbatim>\<open>Then\<close> and \<^verbatim>\<open>Handle\<close> compose the chain from the steps that
  \<^verbatim>\<open>q.fns\<close> has in the heap \<open>H\<close> in which they are called. A later \<^verbatim>\<open>Add\<close>
  on the same chain leads to a heap \<open>H'\<close> in which the chain holds more steps, but the
  handlers taken in \<open>H\<close> and called in \<open>H'\<close>, or in any other heap, behave as they do
  when called in \<open>H\<close>. For a chain of the probed steps \<open>ms\<close> to which the probed steps \<open>ns\<close> are added at the
  positions from \<open>length ms\<close> on, a run in \<open>H'\<close> of a handler taken before invokes
  steps at positions below \<open>length ms\<close> only, possibly followed by the terminal unit:
  no added step is ever executed by it.
\<close>

theorem handler_is_snapshot:
  assumes q: "steps H q = Some fs"
    and qp: "steps Hp qp = Some (probes 0 ms)" and wq: "wf_chain Hp qp"
    and wg: "wf_slice Hp gp" and eg: "elems Hp gp = probes (length ms) ns"
  shows "(\<exists>H'. Add grow H q gs = Inr H'
        \<and> invoke (Then nc H q fn) H' w r s = invoke (Then nc H q fn) H w r s
        \<and> serve nc (Handle H q hh) H' w r s = serve nc (Handle H q hh) H w r s)
    \<and> (\<forall>K. invoke (Then nc H q fn) K w r s = invoke (Then nc H q fn) H w r s
           \<and> serve nc (Handle H q hh) K w r s = serve nc (Handle H q hh) H w r s)
    \<and> (\<exists>Hp'. Add grow Hp qp gp = Inr Hp'
        \<and> steps Hp' qp = Some (probes 0 (ms @ ns))
        \<and> (\<exists>j t. j \<le> length ms \<and> (t = [] \<or> t = [Terminal])
             \<and> h_trace (invoke (Then nc Hp qp (Some (probe_fn f))) Hp' w r ([], sp))
                 = map Step [0..<j] @ t)
        \<and> (\<exists>j t. j \<le> length ms \<and> (t = [] \<or> t = [Terminal])
             \<and> h_trace (serve nc (Handle Hp qp (Some (Handler (probe_fn f)))) Hp' w r ([], sp))
                 = map Step [0..<j] @ t))"
proof -
  from Add_returns [OF q] obtain H' where a: "Add grow H q gs = Inr H'" ..
  have e1: "invoke (Then nc H q fn) K w r s = invoke (Then nc H q fn) H w r s" for K
    by (simp only: Then_reads [OF q])
  have e2: "serve nc (Handle H q hh) K w r s = serve nc (Handle H q hh) H w r s" for K
    by (simp only: Handle_reads [OF q])
  have every: "\<forall>K. invoke (Then nc H q fn) K w r s = invoke (Then nc H q fn) H w r s
      \<and> serve nc (Handle H q hh) K w r s = serve nc (Handle H q hh) H w r s"
    using e1 e2 by blast
  have general: "\<exists>H'. Add grow H q gs = Inr H'
        \<and> invoke (Then nc H q fn) H' w r s = invoke (Then nc H q fn) H w r s
        \<and> serve nc (Handle H q hh) H' w r s = serve nc (Handle H q hh) H w r s"
    by (intro exI [of _ H'] conjI a e1 e2)
  from Add_steps [OF qp wq wg] obtain Hp' where ap: "Add grow Hp qp gp = Inr Hp'"
    and sp: "steps Hp' qp = Some (probes 0 ms @ elems Hp gp)"
    by blast
  have sp': "steps Hp' qp = Some (probes 0 (ms @ ns))"
    using sp eg by (simp add: probes_append)
  have same: "serve nc (Handle Hp qp (Some (Handler (probe_fn f)))) Hp' w r ([], sp)
      = invoke (Then nc Hp qp (Some (probe_fn f))) Hp' w r ([], sp)"
    using qp by (rule serve_as_invoke)
  have tr: "\<exists>j t. j \<le> length ms \<and> (t = [] \<or> t = [Terminal])
      \<and> h_trace (invoke (Then nc Hp qp (Some (probe_fn f))) Hp' w r ([], sp))
          = map Step [0..<j] @ t"
    using qp by (rule then_trace_steps)
  have tr': "\<exists>j t. j \<le> length ms \<and> (t = [] \<or> t = [Terminal])
      \<and> h_trace (serve nc (Handle Hp qp (Some (Handler (probe_fn f)))) Hp' w r ([], sp))
          = map Step [0..<j] @ t"
    unfolding same by (rule tr)
  have probed: "\<exists>Hp'. Add grow Hp qp gp = Inr Hp'
        \<and> steps Hp' qp = Some (probes 0 (ms @ ns))
        \<and> (\<exists>j t. j \<le> length ms \<and> (t = [] \<or> t = [Terminal])
             \<and> h_trace (invoke (Then nc Hp qp (Some (probe_fn f))) Hp' w r ([], sp))
                 = map Step [0..<j] @ t)
        \<and> (\<exists>j t. j \<le> length ms \<and> (t = [] \<or> t = [Terminal])
             \<and> h_trace (serve nc (Handle Hp qp (Some (Handler (probe_fn f)))) Hp' w r ([], sp))
                 = map Step [0..<j] @ t)"
    by (intro exI [of _ Hp'] conjI ap sp' tr tr')
  show ?thesis
    by (intro conjI general every probed)
qed

theorem handler_is_snapshot_witness:
  "steps
       (\<lparr>arrays = [[Some (\<lambda>c w r s. Inr (c, s + 1)), None],
                   [Some (\<lambda>c w r s. Inr (c, s + 10))]],
         objs = [\<lparr>fns = \<lparr>arr = 0, off = 0, len = 1, cap = 2\<rparr>\<rparr>]\<rparr> :: (unit, unit, nat) heap)
         (Some 0)
         = Some [Some (\<lambda>c w r s. Inr (c, s + 1))]
   \<and> steps
       (\<lparr>arrays = [[Some (probe_mw 0 (\<lambda>c w r s. Inr (c, s + 1))), None],
                   [Some (probe_mw 1 (\<lambda>c w r s. Inr (c, s + 10)))]],
         objs = [\<lparr>fns = \<lparr>arr = 0, off = 0, len = 1, cap = 2\<rparr>\<rparr>]\<rparr> :: (unit, unit, event list \<times> nat) heap)
         (Some 0)
         = Some (probes 0 [(\<lambda>c w r s. Inr (c, s + 1))])
   \<and> wf_chain
       (\<lparr>arrays = [[Some (probe_mw 0 (\<lambda>c w r s. Inr (c, s + 1))), None],
                   [Some (probe_mw 1 (\<lambda>c w r s. Inr (c, s + 10)))]],
         objs = [\<lparr>fns = \<lparr>arr = 0, off = 0, len = 1, cap = 2\<rparr>\<rparr>]\<rparr> :: (unit, unit, event list \<times> nat) heap)
         (Some 0)
   \<and> wf_slice
       (\<lparr>arrays = [[Some (probe_mw 0 (\<lambda>c w r s. Inr (c, s + 1))), None],
                   [Some (probe_mw 1 (\<lambda>c w r s. Inr (c, s + 10)))]],
         objs = [\<lparr>fns = \<lparr>arr = 0, off = 0, len = 1, cap = 2\<rparr>\<rparr>]\<rparr> :: (unit, unit, event list \<times> nat) heap)
         \<lparr>arr = 1, off = 0, len = 1, cap = 1\<rparr>
   \<and> elems
       (\<lparr>arrays = [[Some (probe_mw 0 (\<lambda>c w r s. Inr (c, s + 1))), None],
                   [Some (probe_mw 1 (\<lambda>c w r s. Inr (c, s + 10)))]],
         objs = [\<lparr>fns = \<lparr>arr = 0, off = 0, len = 1, cap = 2\<rparr>\<rparr>]\<rparr> :: (unit, unit, event list \<times> nat) heap)
         \<lparr>arr = 1, off = 0, len = 1, cap = 1\<rparr>
         = probes (length [(\<lambda>c w r s. Inr (c, s + 1)) :: (unit, unit, nat) mwfun])
             [(\<lambda>c w r s. Inr (c, s + 10))]
   \<and> Add (\<lambda>c n. 2 * n)
       (\<lparr>arrays = [[Some (\<lambda>c w r s. Inr (c, s + 1)), None],
                   [Some (\<lambda>c w r s. Inr (c, s + 10))]],
         objs = [\<lparr>fns = \<lparr>arr = 0, off = 0, len = 1, cap = 2\<rparr>\<rparr>]\<rparr> :: (unit, unit, nat) heap)
         (Some 0) \<lparr>arr = 1, off = 0, len = 1, cap = 1\<rparr>
         = Inr
       \<lparr>arrays = [[Some (\<lambda>c w r s. Inr (c, s + 1)), Some (\<lambda>c w r s. Inr (c, s + 10))],
                  [Some (\<lambda>c w r s. Inr (c, s + 10))]],
        objs = [\<lparr>fns = \<lparr>arr = 0, off = 0, len = 2, cap = 2\<rparr>\<rparr>]\<rparr>
   \<and> steps
       (\<lparr>arrays = [[Some (\<lambda>c w r s. Inr (c, s + 1)), Some (\<lambda>c w r s. Inr (c, s + 10))],
                   [Some (\<lambda>c w r s. Inr (c, s + 10))]],
         objs = [\<lparr>fns = \<lparr>arr = 0, off = 0, len = 2, cap = 2\<rparr>\<rparr>]\<rparr> :: (unit, unit, nat) heap)
         (Some 0)
         = Some [Some (\<lambda>c w r s. Inr (c, s + 1)), Some (\<lambda>c w r s. Inr (c, s + 10))]
   \<and> invoke (Then (\<lambda>r. Some (Ctx [] None))
                 (\<lparr>arrays = [[Some (\<lambda>c w r s. Inr (c, s + 1)), None],
                             [Some (\<lambda>c w r s. Inr (c, s + 10))]],
                   objs = [\<lparr>fns = \<lparr>arr = 0, off = 0, len = 1, cap = 2\<rparr>\<rparr>]\<rparr> :: (unit, unit, nat) heap)
                 (Some 0) (Some (\<lambda>c w r s. Inr (s + 1000))))
         \<lparr>arrays = [[Some (\<lambda>c w r s. Inr (c, s + 1)), Some (\<lambda>c w r s. Inr (c, s + 10))],
                    [Some (\<lambda>c w r s. Inr (c, s + 10))]],
          objs = [\<lparr>fns = \<lparr>arr = 0, off = 0, len = 2, cap = 2\<rparr>\<rparr>]\<rparr>
         () () (0::nat)
         = invoke (Then (\<lambda>r. Some (Ctx [] None))
                     (\<lparr>arrays = [[Some (\<lambda>c w r s. Inr (c, s + 1)), None],
                                 [Some (\<lambda>c w r s. Inr (c, s + 10))]],
                       objs = [\<lparr>fns = \<lparr>arr = 0, off = 0, len = 1, cap = 2\<rparr>\<rparr>]\<rparr> :: (unit, unit, nat) heap)
                     (Some 0) (Some (\<lambda>c w r s. Inr (s + 1000))))
             \<lparr>arrays = [[Some (\<lambda>c w r s. Inr (c, s + 1)), None],
                        [Some (\<lambda>c w r s. Inr (c, s + 10))]],
              objs = [\<lparr>fns = \<lparr>arr = 0, off = 0, len = 1, cap = 2\<rparr>\<rparr>]\<rparr>
             () () (0::nat)
   \<and> invoke (Then (\<lambda>r. Some (Ctx [] None))
                 (\<lparr>arrays = [[Some (\<lambda>c w r s. Inr (c, s + 1)), None],
                             [Some (\<lambda>c w r s. Inr (c, s + 10))]],
                   objs = [\<lparr>fns = \<lparr>arr = 0, off = 0, len = 1, cap = 2\<rparr>\<rparr>]\<rparr> :: (unit, unit, nat) heap)
                 (Some 0) (Some (\<lambda>c w r s. Inr (s + 1000))))
         \<lparr>arrays = [[Some (\<lambda>c w r s. Inr (c, s + 1)), Some (\<lambda>c w r s. Inr (c, s + 10))],
                    [Some (\<lambda>c w r s. Inr (c, s + 10))]],
          objs = [\<lparr>fns = \<lparr>arr = 0, off = 0, len = 2, cap = 2\<rparr>\<rparr>]\<rparr>
         () () (0::nat)
         = Inr 1001
   \<and> invoke (Then (\<lambda>r. Some (Ctx [] None))
                 (\<lparr>arrays = [[Some (\<lambda>c w r s. Inr (c, s + 1)), Some (\<lambda>c w r s. Inr (c, s + 10))],
                             [Some (\<lambda>c w r s. Inr (c, s + 10))]],
                   objs = [\<lparr>fns = \<lparr>arr = 0, off = 0, len = 2, cap = 2\<rparr>\<rparr>]\<rparr> :: (unit, unit, nat) heap)
                 (Some 0) (Some (\<lambda>c w r s. Inr (s + 1000))))
         \<lparr>arrays = [[Some (\<lambda>c w r s. Inr (c, s + 1)), Some (\<lambda>c w r s. Inr (c, s + 10))],
                    [Some (\<lambda>c w r s. Inr (c, s + 10))]],
          objs = [\<lparr>fns = \<lparr>arr = 0, off = 0, len = 2, cap = 2\<rparr>\<rparr>]\<rparr>
         () () (0::nat)
         = Inr 1011
   \<and> Add (\<lambda>c n. 2 * n)
       (\<lparr>arrays = [[Some (probe_mw 0 (\<lambda>c w r s. Inr (c, s + 1))), None],
                   [Some (probe_mw 1 (\<lambda>c w r s. Inr (c, s + 10)))]],
         objs = [\<lparr>fns = \<lparr>arr = 0, off = 0, len = 1, cap = 2\<rparr>\<rparr>]\<rparr> :: (unit, unit, event list \<times> nat) heap)
         (Some 0) \<lparr>arr = 1, off = 0, len = 1, cap = 1\<rparr>
         = Inr
       \<lparr>arrays = [[Some (probe_mw 0 (\<lambda>c w r s. Inr (c, s + 1))), Some (probe_mw 1 (\<lambda>c w r s. Inr (c, s + 10)))],
                  [Some (probe_mw 1 (\<lambda>c w r s. Inr (c, s + 10)))]],
        objs = [\<lparr>fns = \<lparr>arr = 0, off = 0, len = 2, cap = 2\<rparr>\<rparr>]\<rparr>
   \<and> steps
       (\<lparr>arrays = [[Some (probe_mw 0 (\<lambda>c w r s. Inr (c, s + 1))), Some (probe_mw 1 (\<lambda>c w r s. Inr (c, s + 10)))],
                   [Some (probe_mw 1 (\<lambda>c w r s. Inr (c, s + 10)))]],
         objs = [\<lparr>fns = \<lparr>arr = 0, off = 0, len = 2, cap = 2\<rparr>\<rparr>]\<rparr> :: (unit, unit, event list \<times> nat) heap)
         (Some 0)
         = Some (probes 0 ([(\<lambda>c w r s. Inr (c, s + 1))] @ [(\<lambda>c w r s. Inr (c, s + 10))]))
   \<and> h_trace (invoke (Then (\<lambda>r. Some (Ctx [] None))
                          (\<lparr>arrays = [[Some (probe_mw 0 (\<lambda>c w r s. Inr (c, s + 1))), None],
                                      [Some (probe_mw 1 (\<lambda>c w r s. Inr (c, s + 10)))]],
                            objs = [\<lparr>fns = \<lparr>arr = 0, off = 0, len = 1, cap = 2\<rparr>\<rparr>]\<rparr> :: (unit, unit, event list \<times> nat) heap)
                          (Some 0) (Some (probe_fn (\<lambda>c w r s. Inr (s + 1000)))))
                  \<lparr>arrays = [[Some (probe_mw 0 (\<lambda>c w r s. Inr (c, s + 1))), Some (probe_mw 1 (\<lambda>c w r s. Inr (c, s + 10)))],
                             [Some (probe_mw 1 (\<lambda>c w r s. Inr (c, s + 10)))]],
                   objs = [\<lparr>fns = \<lparr>arr = 0, off = 0, len = 2, cap = 2\<rparr>\<rparr>]\<rparr>
                  () () ([], 0::nat))
         = [Step 0, Terminal]
   \<and> h_trace (invoke (Then (\<lambda>r. Some (Ctx [] None))
                          (\<lparr>arrays = [[Some (probe_mw 0 (\<lambda>c w r s. Inr (c, s + 1))), Some (probe_mw 1 (\<lambda>c w r s. Inr (c, s + 10)))],
                                      [Some (probe_mw 1 (\<lambda>c w r s. Inr (c, s + 10)))]],
                            objs = [\<lparr>fns = \<lparr>arr = 0, off = 0, len = 2, cap = 2\<rparr>\<rparr>]\<rparr> :: (unit, unit, event list \<times> nat) heap)
                          (Some 0) (Some (probe_fn (\<lambda>c w r s. Inr (s + 1000)))))
                  \<lparr>arrays = [[Some (probe_mw 0 (\<lambda>c w r s. Inr (c, s + 1))), Some (probe_mw 1 (\<lambda>c w r s. Inr (c, s + 10)))],
                             [Some (probe_mw 1 (\<lambda>c w r s. Inr (c, s + 10)))]],
                   objs = [\<lparr>fns = \<lparr>arr = 0, off = 0, len = 2, cap = 2\<rparr>\<rparr>]\<rparr>
                  () () ([], 0::nat))
         = [Step 0, Step 1, Terminal]"
proof -
  let ?a = "(\<lambda>c w r s. Inr (c, s + 1)) :: (unit, unit, nat) mwfun"
  let ?b = "(\<lambda>c w r s. Inr (c, s + 10)) :: (unit, unit, nat) mwfun"
  let ?f = "(\<lambda>c w r s. Inr (s + 1000)) :: (unit, unit, nat) hfun"
  let ?nc = "\<lambda>r::unit. Some (Ctx [] None)"
  let ?g = "(\<lambda>c n. 2 * n) :: nat \<Rightarrow> nat \<Rightarrow> nat"
  let ?gs = "\<lparr>arr = 1, off = 0, len = 1, cap = 1\<rparr>"
  let ?Q1 = "\<lparr>fns = \<lparr>arr = 0, off = 0, len = 1, cap = 2\<rparr>\<rparr>"
  let ?Q2 = "\<lparr>fns = \<lparr>arr = 0, off = 0, len = 2, cap = 2\<rparr>\<rparr>"
  let ?H = "\<lparr>arrays = [[Some ?a, None], [Some ?b]], objs = [?Q1]\<rparr>"
  let ?H2 = "\<lparr>arrays = [[Some ?a, Some ?b], [Some ?b]], objs = [?Q2]\<rparr>"
  let ?Hp = "\<lparr>arrays = [[Some (probe_mw 0 ?a), None], [Some (probe_mw 1 ?b)]],
              objs = [?Q1]\<rparr>"
  let ?Hp2 = "\<lparr>arrays = [[Some (probe_mw 0 ?a), Some (probe_mw 1 ?b)], [Some (probe_mw 1 ?b)]],
               objs = [?Q2]\<rparr>"
  have h1: "steps ?H (Some 0) = Some [Some ?a]"
    and h2: "steps ?Hp (Some 0) = Some (probes 0 [?a])"
    and h3: "wf_chain ?Hp (Some 0)" and h4: "wf_slice ?Hp ?gs"
    and h5: "elems ?Hp ?gs = probes (length [?a]) [?b]"
    by (simp_all add: steps_def deref_def elems_def wf_chain_def wf_slice_def)
  have a1: "Add ?g ?H (Some 0) ?gs = Inr ?H2" and a2: "Add ?g ?Hp (Some 0) ?gs = Inr ?Hp2"
    by (simp_all add: Add_def append_slice_def elems_def Let_def)
  have s2: "steps ?H2 (Some 0) = Some [Some ?a, Some ?b]"
    and sp2: "steps ?Hp2 (Some 0) = Some (probes 0 ([?a] @ [?b]))"
    by (simp_all add: steps_def deref_def elems_def)
  note t = handler_is_snapshot [where grow = ?g and gs = ?gs and nc = ?nc
      and fn = "Some ?f" and w = "()" and r = "()" and s = 0, OF h1 h2 h3 h4 h5]
  from t obtain X where x: "Add ?g ?H (Some 0) ?gs = Inr X"
    and e: "invoke (Then ?nc ?H (Some 0) (Some ?f)) X () () 0
      = invoke (Then ?nc ?H (Some 0) (Some ?f)) ?H () () 0"
    by blast
  have X: "X = ?H2"
    using x a1 by simp
  have c1: "invoke (Then ?nc ?H (Some 0) (Some ?f)) ?H2 () () 0
      = invoke (Then ?nc ?H (Some 0) (Some ?f)) ?H () () 0"
    using e unfolding X .
  have c2: "invoke (Then ?nc ?H (Some 0) (Some ?f)) ?H2 () () 0 = Inr 1001"
    using Then_reads [OF h1, of ?nc "Some ?f" ?H2 "()" "()" 0]
    by (simp add: chain_Cons chain_Nil)
  have c3: "invoke (Then ?nc ?H2 (Some 0) (Some ?f)) ?H2 () () 0 = Inr 1011"
    using Then_reads [OF s2, of ?nc "Some ?f" ?H2 "()" "()" 0]
    by (simp add: chain_Cons chain_Nil)
  have c4: "h_trace (invoke (Then ?nc ?Hp (Some 0) (Some (probe_fn ?f))) ?Hp2 () () ([], 0))
      = [Step 0, Terminal]"
    using Then_reads [OF h2, of ?nc "Some (probe_fn ?f)" ?Hp2 "()" "()" "([], 0)"]
    by (simp add: chain_Cons chain_Nil)
  have c5: "h_trace (invoke (Then ?nc ?Hp2 (Some 0) (Some (probe_fn ?f))) ?Hp2 () () ([], 0))
      = [Step 0, Step 1, Terminal]"
    using Then_reads [OF sp2, of ?nc "Some (probe_fn ?f)" ?Hp2 "()" "()" "([], 0)"]
    by (simp add: chain_Cons chain_Nil)
  show ?thesis
    by (intro conjI h1 h2 h3 h4 h5 a1 s2 c1 c2 c3 a2 sp2 c4 c5)
qed

lemma chain_returns:
  assumes "steps_return ms c w r s"
  shows "\<exists>c' s'. call_mw (chain (map Some ms)) c w r s = Inr (c', s')
    \<and> ((c' = None) = (ms = [] \<and> c = None))"
  using assms
proof (induction ms arbitrary: c s)
  case Nil
  show ?case by (simp add: chain_Nil)
next
  case (Cons m ms)
  from Cons.prems obtain x s1 where m: "m c w r s = Inr (Some x, s1)"
    and rest: "err x = None \<Longrightarrow> steps_return ms (Some x) w r s1"
    by (auto split: sum.splits option.splits if_splits)
  show ?case
  proof (cases "err x")
    case None
    from Cons.IH [OF rest [OF None]] obtain c2 s2 where
      "call_mw (chain (map Some ms)) (Some x) w r s1 = Inr (c2, s2)" and "c2 \<noteq> None"
      by auto
    then show ?thesis
      using m None by (simp add: chain_Cons)
  next
    case (Some e)
    then show ?thesis
      using m by (simp add: chain_Cons)
  qed
qed

lemma chain_returned:
  assumes "call_mw (chain (map Some ms)) c w r s = Inr (c', s')"
  shows "steps_return ms c w r s"
  using assms
proof (induction ms arbitrary: c s)
  case Nil
  show ?case by simp
next
  case (Cons m ms)
  then show ?case
    by (auto simp: chain_Cons split: sum.splits option.splits if_splits)
qed

lemma chain_nil_context_faults:
  assumes "k < length ms" and "all_pass (take k ms) c w r s = Some (c1, s1)"
    and "(ms ! k) c1 w r s1 = Inr (None, sk)"
  shows "call_mw (chain (map Some ms)) c w r s = Inl (NilDereference, sk)"
proof -
  from assms(1) obtain pre post where ms: "ms = pre @ ms ! k # post" and tk: "pre = take k ms"
    by (rule split_at)
  have "call_mw (chain (map Some pre @ Some (ms ! k) # map Some post)) c w r s
      = call_mw (chain (Some (ms ! k) # map Some post)) c1 w r s1"
    using assms(2) tk by (intro chain_pass) simp
  also have "\<dots> = Inl (NilDereference, sk)"
    using assms(3) by (simp add: chain_Cons)
  finally show ?thesis
    using ms by (metis list.simps(9) map_append)
qed

text \<open>
  C10. When every step that a run of the chain reaches returns a Context that is not
  nil, the composed chain returns: no check of \<^verbatim>\<open>c.Err()\<close> in \<^verbatim>\<open>link\<close> meets
  a nil Context and no panic arises, and the Context returned is nil only when the chain
  is empty and was given nil, so the check in \<^verbatim>\<open>Then\<close> and
  \<^verbatim>\<open>handler.ServeHTTP\<close> after a non-empty chain is safe as well. Conversely a
  chain that returns has only reached steps that returned a Context. Without the
  precondition: when the steps before position \<open>k\<close> pass and the step at \<open>k\<close> returns
  nil, the check after that step is a nil dereference, in the state that step left.
\<close>

theorem nil_context_is_the_only_fault:
  "(steps_return ms c w r s \<longrightarrow>
      (\<exists>c' s'. call_mw (chain (map Some ms)) c w r s = Inr (c', s')
         \<and> ((c' = None) = (ms = [] \<and> c = None))))
   \<and> ((\<exists>c' s'. call_mw (chain (map Some ms)) c w r s = Inr (c', s')) \<longrightarrow>
        steps_return ms c w r s)
   \<and> (k < length ns \<and> all_pass (take k ns) c0 w0 r0 s0 = Some (c1, s1)
        \<and> (ns ! k) c1 w0 r0 s1 = Inr (None, sk) \<longrightarrow>
      call_mw (chain (map Some ns)) c0 w0 r0 s0 = Inl (NilDereference, sk))"
  using chain_returns [of ms c w r s] chain_returned [of ms c w r s]
    chain_nil_context_faults [of k ns c0 w0 r0 s0 c1 s1 sk]
  by blast

theorem nil_context_is_the_only_fault_witness:
  "steps_return [\<lambda>c w r s. Inr (c, Suc s), \<lambda>c w r s. Inr (c, s + (10::nat))]
      (Some (Ctx [] None)) () () 0
   \<and> (\<exists>c' s'. call_mw (chain (map Some [\<lambda>c w r s. Inr (c, Suc s),
          \<lambda>c w r s. Inr (c, s + (10::nat))])) (Some (Ctx [] None)) () () 0 = Inr (c', s')
        \<and> c' \<noteq> None)
   \<and> Suc 0 < length [\<lambda>c w r s. Inr (c, Suc s), \<lambda>c w r s. Inr (None, s + (10::nat)),
                      \<lambda>c w r s. Inr (c, s + 100)]
   \<and> all_pass (take (Suc 0) [\<lambda>c w r s. Inr (c, Suc s), \<lambda>c w r s. Inr (None, s + (10::nat)),
                      \<lambda>c w r s. Inr (c, s + 100)]) (Some (Ctx [] None)) () () 0
        = Some (Some (Ctx [] None), 1)
   \<and> ([\<lambda>c w r s. Inr (c, Suc s), \<lambda>c w r s. Inr (None, s + (10::nat)),
         \<lambda>c w r s. Inr (c, s + 100)] ! Suc 0) (Some (Ctx [] None)) () () 1
        = (Inr (None, 11) :: (fault \<times> nat) + (Context \<times> nat))
   \<and> call_mw (chain (map Some [\<lambda>c w r s. Inr (c, Suc s), \<lambda>c w r s. Inr (None, s + (10::nat)),
         \<lambda>c w r s. Inr (c, s + 100)])) (Some (Ctx [] None)) () () 0
        = Inl (NilDereference, 11)"
proof -
  let ?ms = "[\<lambda>c w r s. Inr (c, Suc s), \<lambda>c w r s. Inr (c, s + (10::nat))]
    :: (unit, unit, nat) mwfun list"
  let ?ns = "[\<lambda>c w r s. Inr (c, Suc s), \<lambda>c w r s. Inr (None, s + (10::nat)),
              \<lambda>c w r s. Inr (c, s + 100)] :: (unit, unit, nat) mwfun list"
  note t = nil_context_is_the_only_fault [where ms = ?ms and c = "Some (Ctx [] None)"
      and w = "()" and r = "()" and s = 0 and k = "Suc 0" and ns = ?ns
      and ?c0.0 = "Some (Ctx [] None)" and ?w0.0 = "()" and ?r0.0 = "()" and ?s0.0 = 0
      and ?c1.0 = "Some (Ctx [] None)" and ?s1.0 = 1 and sk = 11]
  have h1: "steps_return ?ms (Some (Ctx [] None)) () () 0"
    by simp
  have h2: "Suc 0 < length ?ns"
    by simp
  have h3: "all_pass (take (Suc 0) ?ns) (Some (Ctx [] None)) () () 0
      = Some (Some (Ctx [] None), 1)"
    by simp
  have h4: "(?ns ! Suc 0) (Some (Ctx [] None)) () () 1 = Inr (None, 11)"
    by simp
  from t h1 have "\<exists>c' s'. call_mw (chain (map Some ?ms)) (Some (Ctx [] None)) () () 0
      = Inr (c', s') \<and> ((c' = None) = (?ms = [] \<and> Some (Ctx [] None) = (None :: Context)))"
    by blast
  then have r1: "\<exists>c' s'. call_mw (chain (map Some ?ms)) (Some (Ctx [] None)) () () 0
      = Inr (c', s') \<and> c' \<noteq> None"
    by simp
  have r2: "call_mw (chain (map Some ?ns)) (Some (Ctx [] None)) () () 0
      = Inl (NilDereference, 11)"
    using t h2 h3 h4 by blast
  show ?thesis
    using r1 r2 by simp
qed

end
